theory Spec2Isabelle
  imports Complex_Main "HOL-Library.Monad_Syntax"
begin

section \<open>Number model\<close>

text \<open>
  The sketch computes with JavaScript numbers, which are IEEE binary64 values, and the
  fragment shader with GLSL floats, declared \<open>mediump\<close> under \<open>GL_ES\<close>, where a float
  may have as few as 16 bits. Two models are used.

  In the exact model a number is a real: a decimal literal of the source is the rational
  it denotes, \<open>sin\<close>, \<open>cos\<close>, \<open>sqrt\<close>, \<open>acos\<close> are the real functions, and rounding,
  infinities and NaN are outside the model. The scheduler, the cube, the palette and the
  environment map are studied in this model.

  In the rounded model every arithmetic operation of the source is followed by rounding
  to the nearest value of the format, ties to even (\<open>b64\<close> for binary64, \<open>b16\<close> for
  binary16), in the order of evaluation of the source. Overflow is outside the rounded
  model; the values it is used for stay below 8. The functions with the suffix \<open>_b64\<close>
  are the rounded counterparts of \<open>easeInOutQuad\<close> and of the corner transform of
  \<open>createCube\<close>; \<open>ggxDenom\<close> takes the rounding as a parameter.

  Division by a literal is \<open>/\<close>. The divisions of \<open>computeNormal\<close> and of the
  specular term of the shader, whose divisors are computed, are written with
  \<open>div_checked\<close>, which has no result (\<open>None\<close>) for the divisor 0: that such a
  function returns \<open>Some\<close> value says that it never divides by zero. The division
  \<open>elapsedTime / animationDuration\<close> of \<open>updatePillars\<close> is written with \<open>/\<close>: the
  durations that \<open>initPillars\<close> draws are positive and never change. For a duration 0,
  where JavaScript yields an infinity or NaN, HOL's quotient is 0 and the model says
  nothing about the source.
\<close>

type_synonym vec3 = "real \<times> real \<times> real"

definition div_checked :: "real \<Rightarrow> real \<Rightarrow> real option" where
  "div_checked a b = (if b = 0 then None else Some (a / b))"

subsection \<open>Rounding to a binary floating-point format\<close>

text \<open>
  \<open>round_even y\<close> is the integer nearest to \<open>y\<close>, the even one of the two when \<open>y\<close>
  lies half way between them.
\<close>

definition round_even :: "real \<Rightarrow> int" where
  "round_even y =
     (let f = \<lfloor>y\<rfloor>; d = y - of_int f
      in if d < 1 / 2 then f else if 1 / 2 < d then f + 1 else if even f then f else f + 1)"

text \<open>
  \<open>float_round p emin x\<close> is the value nearest to \<open>x\<close> in the binary format with \<open>p\<close>
  significant bits and least normal exponent \<open>emin\<close>, ties to even: \<open>x\<close> is scaled by
  the power of two that brings its significand to \<open>p\<close> bits (for a subnormal \<open>x\<close>, by
  the fixed power of the subnormal range), rounded to an integer and scaled back.
\<close>

definition float_round :: "nat \<Rightarrow> int \<Rightarrow> real \<Rightarrow> real" where
  "float_round p emin x =
     (if x = 0 then 0
      else (let e = max \<lfloor>log 2 \<bar>x\<bar>\<rfloor> emin;
                q = 2 powr real_of_int (e - int p + 1)
            in of_int (round_even (x / q)) * q))"

text \<open>IEEE binary64, the JavaScript number, and binary16, the narrowest \<open>mediump\<close> float.\<close>

definition b64 :: "real \<Rightarrow> real" where
  "b64 x = float_round 53 (- 1022) x"

definition b16 :: "real \<Rightarrow> real" where
  "b16 x = float_round 11 (- 14) x"

section \<open>sketch.js: easing\<close>

text \<open>
  \<^verbatim>\<open>return t < 0.5 ? 2.0 * t * t : -1.0 + (4.0 - 2.0 * t) * t;\<close>
\<close>

definition easeInOutQuad :: "real \<Rightarrow> real" where
  "easeInOutQuad t = (if t < 0.5 then 2.0 * t * t else -1.0 + (4.0 - 2.0 * t) * t)"

text \<open>
  The same expression in binary64: \<open>2.0 * t * t\<close> is \<open>(2.0 * t) * t\<close>, and each
  product, difference and sum is rounded.
\<close>

definition easeInOutQuad_b64 :: "real \<Rightarrow> real" where
  "easeInOutQuad_b64 t =
     (if t < 0.5 then b64 (b64 (2.0 * t) * t)
      else b64 (- 1.0 + b64 (b64 (4.0 - b64 (2.0 * t)) * t)))"

section \<open>sketch.js: pillars and the wave scheduler\<close>

text \<open>
  One entry of the global array \<open>pillars\<close>. The fields \<open>x\<close> and \<open>z\<close> of the source
  are \<open>px\<close> and \<open>pz\<close> here.
\<close>

record pillar =
  px :: real
  pz :: real
  startHeightFactor :: real
  targetHeightFactor :: real
  currentHeightFactor :: real
  elapsedTime :: real
  animationDuration :: real

text \<open>
  \<open>initPillars\<close>: the nested loop over rows and columns. The three calls of the
  library function \<open>random\<close> in the iteration for \<open>row\<close> and \<open>col\<close> return
  \<open>draws row col\<close>: the values of \<open>random(1.0, maxHeight)\<close> twice and of
  \<open>random(0.1, 0.33)\<close>.
\<close>

definition initPillars :: "nat \<Rightarrow> nat \<Rightarrow> real \<Rightarrow> (nat \<Rightarrow> nat \<Rightarrow> real \<times> real \<times> real) \<Rightarrow> pillar list" where
  "initPillars rows cols spacing draws =
     concat (map (\<lambda>row. map (\<lambda>col.
       (let x = real col * spacing - (real cols * spacing) / 2.0;
            z = real row * spacing - (real rows * spacing) / 2.0
        in case draws row col of (r1, r2, r3) \<Rightarrow>
          (let startH = - r1;
               targetH = - r2;
               animationDuration = r3
           in \<lparr>px = x, pz = z,
               startHeightFactor = startH,
               targetHeightFactor = targetH,
               currentHeightFactor = startH,
               elapsedTime = 0.0,
               animationDuration = animationDuration\<rparr>))) [0..<cols]) [0..<rows])"

text \<open>
  The value \<open>combined\<close> that \<open>updatePillars\<close> computes from the three waves when a
  pillar is retargeted.
\<close>

definition combined :: "real \<Rightarrow> real \<Rightarrow> real \<Rightarrow> real \<Rightarrow> real \<Rightarrow> real" where
  "combined x z currentTime freqMultiplier ampMultiplier =
     (let wave1 = sin (x * 0.5 + z * 0.5 + currentTime * 3.0) * 0.5 + 0.5;
          wave2 = sin (x * 1.5 * freqMultiplier - z * 1.2 * freqMultiplier + currentTime * 8.0) * 0.25 + 0.5;
          wave3 = cos (z * 0.7 + currentTime * 5.0) * (0.3 * ampMultiplier) + 0.5
      in (wave1 + wave2 + wave3) / 3.0)"

text \<open>
  The body of the loop of \<open>updatePillars\<close> for one pillar, statement by statement.
  \<open>maxHeight\<close> is the global variable, \<open>currentTime\<close> is \<open>millis() / 1000.0\<close>, read
  once before the loop.
\<close>

definition updatePillar :: "real \<Rightarrow> real \<Rightarrow> real \<Rightarrow> real \<Rightarrow> real \<Rightarrow> pillar \<Rightarrow> pillar" where
  "updatePillar maxHeight currentTime dt freqMultiplier ampMultiplier p =
     (let p1 = p\<lparr>elapsedTime := elapsedTime p + dt\<rparr>;
          t = elapsedTime p1 / animationDuration p1;
          (p2, t2) =
            (if t \<ge> 1.0 then
               (let p' = p1\<lparr>startHeightFactor := targetHeightFactor p1\<rparr>;
                    c = combined (px p') (pz p') currentTime freqMultiplier ampMultiplier;
                    p'' = p'\<lparr>targetHeightFactor := - c * maxHeight\<rparr>
                in (p''\<lparr>elapsedTime := 0.0\<rparr>, 0.0))
             else (p1, t));
          easedT = easeInOutQuad t2
      in p2\<lparr>currentHeightFactor :=
            startHeightFactor p2 + (targetHeightFactor p2 - startHeightFactor p2) * easedT\<rparr>)"

definition updatePillars :: "real \<Rightarrow> real \<Rightarrow> real \<Rightarrow> real \<Rightarrow> real \<Rightarrow> pillar list \<Rightarrow> pillar list" where
  "updatePillars maxHeight currentTime dt freqMultiplier ampMultiplier pillars =
     map (updatePillar maxHeight currentTime dt freqMultiplier ampMultiplier) pillars"

text \<open>
  A run of the sketch calls \<open>updatePillars\<close> once per frame (\<open>draw\<close>). A frame is
  \<open>(currentTime, dt, freqMultiplier, ampMultiplier)\<close>.
\<close>

type_synonym frame = "real \<times> real \<times> real \<times> real"

fun runFrames :: "real \<Rightarrow> frame list \<Rightarrow> pillar list \<Rightarrow> pillar list" where
  "runFrames maxHeight [] pillars = pillars"
| "runFrames maxHeight ((currentTime, dt, freqMultiplier, ampMultiplier) # frames) pillars =
     runFrames maxHeight frames
       (updatePillars maxHeight currentTime dt freqMultiplier ampMultiplier pillars)"

text \<open>
  The pillar states that \<open>initPillars\<close> produces, as the claims describe them: the three
  height factors between \<open>- maxHeight\<close> and 0, no time elapsed, a positive duration.
\<close>

definition init_ok :: "real \<Rightarrow> pillar \<Rightarrow> bool" where
  "init_ok maxHeight p \<longleftrightarrow>
     - maxHeight \<le> startHeightFactor p \<and> startHeightFactor p \<le> 0 \<and>
     - maxHeight \<le> targetHeightFactor p \<and> targetHeightFactor p \<le> 0 \<and>
     - maxHeight \<le> currentHeightFactor p \<and> currentHeightFactor p \<le> 0 \<and>
     elapsedTime p = 0 \<and> 0 < animationDuration p"

definition frame_ok :: "frame \<Rightarrow> bool" where
  "frame_ok fr \<longleftrightarrow>
     (case fr of (currentTime, dt, freqMultiplier, ampMultiplier) \<Rightarrow>
        0 \<le> dt \<and> 0.1 \<le> freqMultiplier \<and> freqMultiplier \<le> 3.0 \<and>
        0.1 \<le> ampMultiplier \<and> ampMultiplier \<le> 1.0)"

section \<open>sketch.js: cube mesh\<close>

text \<open>
  \<open>computeNormal\<close>: the cross product of the two edge vectors from \<open>p1\<close>, divided by
  its length when the length is positive.
\<close>

definition computeNormal :: "vec3 \<Rightarrow> vec3 \<Rightarrow> vec3 \<Rightarrow> vec3 option" where
  "computeNormal p1 p2 p3 =
     (case (p1, p2, p3) of ((p10, p11, p12), (p20, p21, p22), (p30, p31, p32)) \<Rightarrow>
        (let U0 = p20 - p10; U1 = p21 - p11; U2 = p22 - p12;
             V0 = p30 - p10; V1 = p31 - p11; V2 = p32 - p12;
             Nx = (U1 * V2) - (U2 * V1);
             Ny = (U2 * V0) - (U0 * V2);
             Nz = (U0 * V1) - (U1 * V0);
             len = sqrt (Nx * Nx + Ny * Ny + Nz * Nz)
         in if len > 0.0 then
              do {
                Nx' \<leftarrow> div_checked Nx len;
                Ny' \<leftarrow> div_checked Ny len;
                Nz' \<leftarrow> div_checked Nz len;
                Some (Nx', Ny', Nz')
              }
            else Some (Nx, Ny, Nz)))"

text \<open>
  The body of the arrow function that \<open>createCube\<close> maps over the corners: rotation
  about the Y axis by the angle whose cosine and sine are \<open>cosA\<close> and \<open>sinA\<close>, then
  translation by the offsets.
\<close>

definition transformCorner :: "real \<Rightarrow> real \<Rightarrow> real \<Rightarrow> real \<Rightarrow> real \<Rightarrow> vec3 \<Rightarrow> vec3" where
  "transformCorner cosA sinA xOffset yOffset zOffset c =
     (case c of (c0, c1, c2) \<Rightarrow>
        (let X = c0 * cosA - c2 * sinA;
             Z = c0 * sinA + c2 * cosA
         in (X + xOffset, c1 + yOffset, Z + zOffset)))"

text \<open>
  The same arrow function in binary64: every product, difference and sum is rounded.
  \<open>cosA\<close> and \<open>sinA\<close> are the values that the library functions \<open>cos\<close> and \<open>sin\<close>
  returned.
\<close>

definition transformCorner_b64 :: "real \<Rightarrow> real \<Rightarrow> real \<Rightarrow> real \<Rightarrow> real \<Rightarrow> vec3 \<Rightarrow> vec3" where
  "transformCorner_b64 cosA sinA xOffset yOffset zOffset c =
     (case c of (c0, c1, c2) \<Rightarrow>
        (let X = b64 (b64 (c0 * cosA) - b64 (c2 * sinA));
             Z = b64 (b64 (c0 * sinA) + b64 (c2 * cosA))
         in (b64 (X + xOffset), b64 (c1 + yOffset), b64 (Z + zOffset))))"

text \<open>
  The binary64 values of \<open>cos(0.7)\<close> and \<open>sin(0.7)\<close>: 0.7648421872844885 and
  0.644217687237691, the binary64 values nearest to the cosine and the sine of the
  binary64 number 0.7. For the angle \<open>-0.7\<close> the library returns the same cosine and the
  opposite sine.
\<close>

definition cos_0_7 :: real where
  "cos_0_7 = 6889085979303315 / 2 ^ 53"

definition sin_0_7 :: real where
  "sin_0_7 = 725324634047287 / 2 ^ 50"

text \<open>
  A vertex record \<open>[x, y, z, nx, ny, nz]\<close> of the source is the pair of its position
  and its normal.
\<close>

type_synonym vertexRecord = "vec3 \<times> vec3"

definition makeFace :: "vec3 list \<Rightarrow> nat \<Rightarrow> nat \<Rightarrow> nat \<Rightarrow> nat \<Rightarrow> vec3 \<Rightarrow> vertexRecord list" where
  "makeFace corners v1 v2 v3 v4 n =
     [(corners ! v1, n), (corners ! v2, n), (corners ! v3, n),
      (corners ! v1, n), (corners ! v3, n), (corners ! v4, n)]"

definition faces :: "(nat \<times> nat \<times> nat \<times> nat) list" where
  "faces = [(0, 1, 2, 3), (4, 5, 6, 7), (0, 1, 5, 4), (2, 3, 7, 6), (0, 3, 7, 4), (1, 2, 6, 5)]"

text \<open>The normal that \<open>createCube\<close> computes for one face of the table.\<close>

definition faceNormal :: "vec3 list \<Rightarrow> nat \<times> nat \<times> nat \<times> nat \<Rightarrow> vec3 option" where
  "faceNormal corners face =
     (case face of (v1, v2, v3, v4) \<Rightarrow>
        computeNormal (corners ! v1) (corners ! v2) (corners ! v3))"

text \<open>The eight corners of \<open>createCube\<close> after rotation and translation.\<close>

definition cubeCorners :: "real \<Rightarrow> real \<Rightarrow> real \<Rightarrow> real \<Rightarrow> real \<Rightarrow> vec3 list" where
  "cubeCorners xOffset yOffset zOffset heightFactor angle =
     (let size = 1.0;
          halfSize = size / 2;
          corners =
            [(- halfSize, - halfSize, - halfSize),
             (halfSize, - halfSize, - halfSize),
             (halfSize, halfSize * heightFactor, - halfSize),
             (- halfSize, halfSize * heightFactor, - halfSize),
             (- halfSize, - halfSize, halfSize),
             (halfSize, - halfSize, halfSize),
             (halfSize, halfSize * heightFactor, halfSize),
             (- halfSize, halfSize * heightFactor, halfSize)];
          cosA = cos angle;
          sinA = sin angle
      in map (transformCorner cosA sinA xOffset yOffset zOffset) corners)"

text \<open>
  \<open>createCube\<close>: for each face of the table, in order, the normal and the six vertex
  records of its two triangles. All indices of the table are below 8, the number of
  corners.
\<close>

definition createCube :: "real \<Rightarrow> real \<Rightarrow> real \<Rightarrow> real \<Rightarrow> real \<Rightarrow> vertexRecord list option" where
  "createCube xOffset yOffset zOffset heightFactor angle =
     (let corners = cubeCorners xOffset yOffset zOffset heightFactor angle
      in map_option concat
           (those (map (\<lambda>face. case face of (v1, v2, v3, v4) \<Rightarrow>
              do {
                n \<leftarrow> faceNormal corners face;
                Some (makeFace corners v1 v2 v3 v4 n)
              }) faces)))"

section \<open>fragment.frag\<close>

text \<open>
  The macro \<open>PI\<close> is the shader's constant for \<open>\<pi>\<close>; its literal
  \<open>3.141592653589793238\<close> agrees with \<open>\<pi>\<close> in every digit a float of the shader holds.
  It is modelled by \<open>\<pi>\<close>, as \<open>acos\<close> and \<open>atan\<close> are modelled by the exact functions.
\<close>

definition PI :: real where
  "PI = pi"

subsection \<open>Built-in functions of the shading language\<close>

definition clamp :: "real \<Rightarrow> real \<Rightarrow> real \<Rightarrow> real" where
  "clamp x minVal maxVal = min (max x minVal) maxVal"

definition mix :: "real \<Rightarrow> real \<Rightarrow> real \<Rightarrow> real" where
  "mix x y a = x * (1 - a) + y * a"

definition mix3 :: "vec3 \<Rightarrow> vec3 \<Rightarrow> real \<Rightarrow> vec3" where
  "mix3 x y a =
     (case (x, y) of ((x0, x1, x2), (y0, y1, y2)) \<Rightarrow> (mix x0 y0 a, mix x1 y1 a, mix x2 y2 a))"

definition smoothstep :: "real \<Rightarrow> real \<Rightarrow> real \<Rightarrow> real" where
  "smoothstep edge0 edge1 x =
     (let t = clamp ((x - edge0) / (edge1 - edge0)) 0.0 1.0
      in t * t * (3.0 - 2.0 * t))"

definition dot :: "vec3 \<Rightarrow> vec3 \<Rightarrow> real" where
  "dot a b = (case (a, b) of ((a0, a1, a2), (b0, b1, b2)) \<Rightarrow> a0 * b0 + a1 * b1 + a2 * b2)"

definition length_v :: "vec3 \<Rightarrow> real" where
  "length_v a = sqrt (dot a a)"

definition add_v :: "vec3 \<Rightarrow> vec3 \<Rightarrow> vec3" where
  "add_v a b = (case (a, b) of ((a0, a1, a2), (b0, b1, b2)) \<Rightarrow> (a0 + b0, a1 + b1, a2 + b2))"

text \<open>
  \<open>normalize\<close> divides by the length; for the zero vector the shading language leaves
  the result undefined, and the model has none.
\<close>

definition normalize_v :: "vec3 \<Rightarrow> vec3 option" where
  "normalize_v a =
     (case a of (a0, a1, a2) \<Rightarrow>
        do {
          n0 \<leftarrow> div_checked a0 (length_v a);
          n1 \<leftarrow> div_checked a1 (length_v a);
          n2 \<leftarrow> div_checked a2 (length_v a);
          Some (n0, n1, n2)
        })"

text \<open>
  The two-argument \<open>atan(y, x)\<close>: the angle of the point \<open>(x, y)\<close>, by quadrant. For
  \<open>x = y = 0\<close> the shading language leaves the result undefined; \<open>undef\<close> is the
  value the implementation returns there.
\<close>

definition atan :: "real \<Rightarrow> real \<Rightarrow> real \<Rightarrow> real" where
  "atan undef y x =
     (if 0 < x then arctan (y / x)
      else if x < 0 then (if 0 \<le> y then arctan (y / x) + pi else arctan (y / x) - pi)
      else if 0 < y then pi / 2
      else if y < 0 then - (pi / 2)
      else undef)"

subsection \<open>Functions of the shader\<close>

text \<open>
  \<open>fresnelSchlick\<close>; \<open>pow(x, 5.0)\<close> is the fifth power (the shading language defines it
  for \<open>x \<ge> 0\<close>).
\<close>

definition fresnelSchlick :: "real \<Rightarrow> vec3 \<Rightarrow> vec3" where
  "fresnelSchlick cosTheta F0 =
     (case F0 of (f0, f1, f2) \<Rightarrow>
        (f0 + (1.0 - f0) * (1.0 - cosTheta) ^ 5,
         f1 + (1.0 - f1) * (1.0 - cosTheta) ^ 5,
         f2 + (1.0 - f2) * (1.0 - cosTheta) ^ 5))"

definition directionToUV :: "real \<Rightarrow> vec3 \<Rightarrow> real \<times> real" where
  "directionToUV undef dir =
     (case dir of (dir_x, dir_y, dir_z) \<Rightarrow>
        (let theta = arccos (clamp dir_y (- 1.0) 1.0);
             phi = atan undef dir_x dir_z + PI;
             u = phi / (2.0 * PI);
             v = theta / PI
         in (u, v)))"

text \<open>
  The palette blend of \<open>main\<close>. \<open>u_color\<close> is the uniform array, declared with 9
  entries; the loop reads \<open>u_color[i+1]\<close> for \<open>i\<close> up to 8, and \<open>outOfRange\<close> is what
  the read of \<open>u_color[9]\<close> yields.
\<close>

definition colorAt :: "vec3 list \<Rightarrow> vec3 \<Rightarrow> nat \<Rightarrow> vec3" where
  "colorAt u_color outOfRange i = (if i < length u_color then u_color ! i else outOfRange)"

definition paletteBlend :: "vec3 list \<Rightarrow> vec3 \<Rightarrow> real \<Rightarrow> vec3" where
  "paletteBlend u_color outOfRange panning_vUv_x =
     (let zero = 0.0;
          color_num = 5.0;
          color_gap = 1.0 / color_num;
          baseColor = colorAt u_color outOfRange 0;
          baseColor = foldl (\<lambda>baseColor i.
              mix3 baseColor (colorAt u_color outOfRange (i + 1))
                (smoothstep (zero + color_gap * real i) (zero + color_gap * real (i + 1))
                   panning_vUv_x))
            baseColor [0..<9]
      in mix3 baseColor (colorAt u_color outOfRange 0)
           (smoothstep (zero + color_gap * 4.0) (zero + color_gap * 5.0) panning_vUv_x))"

text \<open>
  The specular term of \<open>main\<close>, from \<open>NdotS\<close> to \<open>specularSun\<close>. \<open>N\<close>, \<open>V\<close> and
  \<open>S\<close> are the normalised vectors that the first lines of \<open>main\<close> compute, \<open>baseColor\<close>
  the colour after the rim mask. The two denominators the shader names are returned
  beside the colour: \<open>PI * denom * denom\<close> and \<open>denominator\<close>.
\<close>

definition specularSun :: "vec3 \<Rightarrow> vec3 \<Rightarrow> vec3 \<Rightarrow> real \<Rightarrow> real \<Rightarrow> vec3 \<Rightarrow> (vec3 \<times> real \<times> real) option" where
  "specularSun N V S uRoughness uMetalness baseColor =
     (let NdotS = max (dot N S) 0.0;
          alpha = uRoughness * uRoughness;
          alpha2 = alpha * alpha
      in do {
        H \<leftarrow> normalize_v (add_v V S);
        let NdotH = max (dot N H) 0.0;
        let denom = NdotH * NdotH * (alpha2 - 1.0) + 1.0;
        D \<leftarrow> div_checked alpha2 (PI * denom * denom);
        let NdotV = max (dot N V) 0.0;
        let NdotL = NdotS;
        let k = (uRoughness + 1.0) * (uRoughness + 1.0) / 8.0;
        G_V \<leftarrow> div_checked NdotV (NdotV * (1.0 - k) + k);
        G_L \<leftarrow> div_checked NdotL (NdotL * (1.0 - k) + k);
        let G = G_V * G_L;
        let F0 = mix3 (0.04, 0.04, 0.04) baseColor uMetalness;
        let F = fresnelSchlick NdotH F0;
        let numerator = (case F of (f0, f1, f2) \<Rightarrow> (D * f0 * G, D * f1 * G, D * f2 * G));
        let denominator = 4.0 * NdotV * NdotL + 0.001;
        r0 \<leftarrow> div_checked (fst numerator) denominator;
        r1 \<leftarrow> div_checked (fst (snd numerator)) denominator;
        r2 \<leftarrow> div_checked (snd (snd numerator)) denominator;
        Some ((r0, r1, r2), PI * denom * denom, denominator)
      })"

text \<open>The value of the uniform \<open>uRoughness\<close> that \<open>setShaderUniforms\<close> sends.\<close>

definition uRoughness_sketch :: real where
  "uRoughness_sketch = 0.1"

text \<open>
  The variable \<open>denom\<close> of the specular term, from \<open>uRoughness\<close> and \<open>NdotH\<close>, with the
  rounding \<open>rnd\<close> applied after every operation:
  \<^verbatim>\<open>alpha = uRoughness*uRoughness; alpha2 = alpha * alpha;\<close>
  \<^verbatim>\<open>denom = (NdotH*NdotH*(alpha2 - 1.0) + 1.0);\<close>
  With the identity for \<open>rnd\<close> it is the \<open>denom\<close> of \<open>specularSun\<close>.
\<close>

definition ggxDenom :: "(real \<Rightarrow> real) \<Rightarrow> real \<Rightarrow> real \<Rightarrow> real" where
  "ggxDenom rnd uRoughness NdotH =
     (let alpha = rnd (uRoughness * uRoughness);
          alpha2 = rnd (alpha * alpha)
      in rnd (rnd (rnd (NdotH * NdotH) * rnd (alpha2 - 1.0)) + 1.0))"

text \<open>
  The array that \<open>setShaderUniforms\<close> sends as \<open>u_color\<close>: the five colours of the
  palette, each \<open>rgbToFloat(r, g, b)\<close>; the four entries it does not write are 0.
\<close>

definition u_color_sketch :: "vec3 list" where
  "u_color_sketch =
     [(255 / 255, 0 / 255, 0 / 255),
      (255 / 255, 242 / 255, 0 / 255),
      (0 / 255, 255 / 255, 8 / 255),
      (0 / 255, 255 / 255, 238 / 255),
      (111 / 255, 0 / 255, 255 / 255),
      (0, 0, 0), (0, 0, 0), (0, 0, 0), (0, 0, 0)]"

text \<open>A colour with every channel between 0 and 1, and the largest channel difference.\<close>

definition in_unit :: "vec3 \<Rightarrow> bool" where
  "in_unit c \<longleftrightarrow> (case c of (r, g, b) \<Rightarrow> 0 \<le> r \<and> r \<le> 1 \<and> 0 \<le> g \<and> g \<le> 1 \<and> 0 \<le> b \<and> b \<le> 1)"

definition channel_dist :: "vec3 \<Rightarrow> vec3 \<Rightarrow> real" where
  "channel_dist a b =
     (case (a, b) of ((a0, a1, a2), (b0, b1, b2)) \<Rightarrow> max \<bar>a0 - b0\<bar> (max \<bar>a1 - b1\<bar> \<bar>a2 - b2\<bar>))"

section \<open>Invariants of the scheduler and concrete inputs\<close>

text \<open>
  The invariant of the scheduler: a positive duration, the elapsed time inside the
  current transition, and all three height factors between \<open>- maxHeight\<close> and 0.
\<close>

definition pillar_inv :: "real \<Rightarrow> pillar \<Rightarrow> bool" where
  "pillar_inv maxHeight p \<longleftrightarrow>
     0 < animationDuration p \<and> 0 \<le> elapsedTime p \<and> elapsedTime p < animationDuration p \<and>
     - maxHeight \<le> startHeightFactor p \<and> startHeightFactor p \<le> 0 \<and>
     - maxHeight \<le> targetHeightFactor p \<and> targetHeightFactor p \<le> 0 \<and>
     - maxHeight \<le> currentHeightFactor p \<and> currentHeightFactor p \<le> 0"

text \<open>The part of the invariant that concerns time only.\<close>

definition time_inv :: "pillar \<Rightarrow> bool" where
  "time_inv p \<longleftrightarrow>
     0 < animationDuration p \<and> 0 \<le> elapsedTime p \<and> elapsedTime p < animationDuration p"

text \<open>The \<open>dt\<close> of a frame.\<close>

definition frame_dt :: "frame \<Rightarrow> real" where
  "frame_dt fr = (case fr of (currentTime, dt, freqMultiplier, ampMultiplier) \<Rightarrow> dt)"

text \<open>Concrete inputs at which the theorems below are instantiated.\<close>

definition pillar_demo :: pillar where
  "pillar_demo = \<lparr>px = 0, pz = 0, startHeightFactor = - 5, targetHeightFactor = - 3,
      currentHeightFactor = - 5, elapsedTime = 0, animationDuration = 1 / 5\<rparr>"

definition frames_demo :: "frame list" where
  "frames_demo = map (\<lambda>k. (real k * 0.05, 0.05, 1.0, 1.0)) [1..<11]"

definition pillars_demo :: "pillar list" where
  "pillars_demo = initPillars 2 2 1 (\<lambda>row col. (11 / 2 + real row, 3 + real col, 1 / 5))"

section \<open>Rounding: error bound and evaluation\<close>

text \<open>
  Rounding to nearest moves a number of magnitude at most \<open>2 ^ k\<close> by at most
  \<open>2 ^ k / 2 ^ p\<close>, and a number whose scaled significand lies in the range of \<open>p\<close> bits
  is rounded at that scale.
\<close>

lemma round_even_error: "\<bar>of_int (round_even y) - y\<bar> \<le> 1 / 2"
proof -
  have "of_int \<lfloor>y\<rfloor> \<le> y" "y < of_int \<lfloor>y\<rfloor> + 1"
    by linarith+
  then show ?thesis
    by (auto simp: round_even_def Let_def)
qed

lemma round_even_of_int: "round_even (of_int k) = k"
  by (simp add: round_even_def)

lemma float_round_error:
  assumes "\<bar>x\<bar> \<le> 2 ^ k" "emin \<le> int k"
  shows "\<bar>float_round p emin x - x\<bar> \<le> 2 ^ k / 2 ^ p"
proof (cases "x = 0")
  case True
  then show ?thesis by (simp add: float_round_def)
next
  case False
  define e where "e = max \<lfloor>log 2 \<bar>x\<bar>\<rfloor> emin"
  define q where "q = 2 powr real_of_int (e - int p + 1)"
  have q: "0 < q"
    by (simp add: q_def)
  have "log 2 \<bar>x\<bar> \<le> log 2 (2 ^ k)"
    using assms(1) False by (subst log_le_cancel_iff) simp_all
  also have "log 2 (2 ^ k) = real k"
    by simp
  finally have "log 2 \<bar>x\<bar> \<le> real k" .
  then have "\<lfloor>log 2 \<bar>x\<bar>\<rfloor> \<le> int k"
    by (simp add: floor_le_iff)
  then have e: "e \<le> int k"
    using assms(2) by (simp add: e_def)
  have fr: "float_round p emin x = of_int (round_even (x / q)) * q"
    using False by (simp add: float_round_def Let_def e_def q_def)
  have "of_int (round_even (x / q)) * q - x = (of_int (round_even (x / q)) - x / q) * q"
    using q by (simp add: algebra_simps)
  then have "\<bar>of_int (round_even (x / q)) * q - x\<bar> = \<bar>of_int (round_even (x / q)) - x / q\<bar> * q"
    using q by (simp add: abs_mult)
  also have "\<dots> \<le> 1 / 2 * q"
    using round_even_error [of "x / q"] q by (intro mult_right_mono) simp_all
  also have "1 / 2 * q = 2 powr (real_of_int e - real p)"
    by (simp add: q_def powr_diff powr_add)
  also have "\<dots> \<le> 2 powr (real k - real p)"
    using e by simp
  also have "\<dots> = 2 ^ k / 2 ^ p"
    by (simp add: powr_diff powr_realpow)
  finally show ?thesis
    by (simp add: fr)
qed

lemma b64_error: "\<bar>x\<bar> \<le> 2 ^ k \<Longrightarrow> \<bar>b64 x - x\<bar> \<le> 2 ^ k / 2 ^ 53"
  unfolding b64_def by (rule float_round_error) simp_all

lemma float_round_eval:
  assumes "2 ^ (p - 1) \<le> \<bar>x\<bar> * 2 ^ n" "\<bar>x\<bar> * 2 ^ n < 2 ^ p" "0 < p"
    and "emin \<le> int p - 1 - int n"
  shows "float_round p emin x = of_int (round_even (x * 2 ^ n)) / 2 ^ n"
proof -
  have x: "x \<noteq> 0"
  proof
    assume "x = 0"
    then have "(2::real) ^ (p - 1) \<le> 0"
      using assms(1) by simp
    moreover have "0 < (2::real) ^ (p - 1)"
      by simp
    ultimately show False
      by linarith
  qed
  obtain p' where p: "p = Suc p'"
    using assms(3) by (cases p) auto
  have a: "2 powr real_of_int (int p - 1 - int n) = 2 ^ (p - 1) / 2 ^ n"
    by (simp add: p powr_diff powr_realpow)
  have b: "2 powr real_of_int (int p - 1 - int n + 1) = 2 ^ p / 2 ^ n"
    by (simp add: powr_diff powr_realpow)
  have lo: "2 powr real_of_int (int p - 1 - int n) \<le> \<bar>x\<bar>"
    unfolding a using assms(1) by (simp add: pos_divide_le_eq)
  have hi: "\<bar>x\<bar> < 2 powr real_of_int (int p - 1 - int n + 1)"
    unfolding b using assms(2) by (simp add: pos_less_divide_eq)
  have "\<lfloor>log 2 \<bar>x\<bar>\<rfloor> = int p - 1 - int n"
    using x lo hi by (subst floor_log_eq_powr_iff) simp_all
  then have e: "max \<lfloor>log 2 \<bar>x\<bar>\<rfloor> emin = int p - 1 - int n"
    using assms(4) by simp
  have q: "2 powr real_of_int (int p - 1 - int n - int p + 1) = 1 / 2 ^ n"
    by (simp add: powr_minus powr_realpow inverse_eq_divide)
  have "float_round p emin x =
      of_int (round_even (x / 2 powr real_of_int (int p - 1 - int n - int p + 1))) *
        2 powr real_of_int (int p - 1 - int n - int p + 1)"
    using x by (simp only: float_round_def Let_def e if_False)
  then show ?thesis
    by (simp only: q) simp
qed

lemma b64_eval:
  assumes "2 ^ 52 \<le> \<bar>x\<bar> * 2 ^ n" "\<bar>x\<bar> * 2 ^ n < 2 ^ 53" "n \<le> 1074"
  shows "b64 x = of_int (round_even (x * 2 ^ n)) / 2 ^ n"
  unfolding b64_def using assms by (intro float_round_eval) simp_all

lemma b16_eval:
  assumes "2 ^ 10 \<le> \<bar>x\<bar> * 2 ^ n" "\<bar>x\<bar> * 2 ^ n < 2 ^ 11" "n \<le> 24"
  shows "b16 x = of_int (round_even (x * 2 ^ n)) / 2 ^ n"
  unfolding b16_def using assms by (intro float_round_eval) simp_all

lemma b64_zero: "b64 0 = 0"
  by (simp add: b64_def float_round_def)

lemma b64_half: "b64 (1 / 2) = 1 / 2"
  by (subst b64_eval [where n = 53]) (simp_all add: round_even_def)

lemma b64_one: "b64 1 = 1"
  by (subst b64_eval [where n = 52]) (simp_all add: round_even_def)

lemma b64_three_halves: "b64 (3 / 2) = 3 / 2"
  by (subst b64_eval [where n = 52]) (simp_all add: round_even_def)

lemma b64_two: "b64 2 = 2"
  by (subst b64_eval [where n = 51]) (simp_all add: round_even_def)

lemma b64_three: "b64 3 = 3"
  by (subst b64_eval [where n = 51]) (simp_all add: round_even_def)

lemma b16_zero: "b16 0 = 0"
  by (simp add: b16_def float_round_def)

lemma b64_error_4: "\<bar>x\<bar> \<le> 4 \<Longrightarrow> \<bar>b64 x - x\<bar> \<le> 1 / 2 ^ 51"
  using b64_error [of x 2] by simp

lemma b64_error_8: "\<bar>x\<bar> \<le> 8 \<Longrightarrow> \<bar>b64 x - x\<bar> \<le> 1 / 2 ^ 50"
  using b64_error [of x 3] by simp

lemma abs_mult_bound:
  fixes x y :: real
  assumes "\<bar>x\<bar> \<le> A" "\<bar>y\<bar> \<le> B"
  shows "\<bar>x * y\<bar> \<le> A * B"
  unfolding abs_mult using assms by (intro mult_mono) simp_all

section \<open>Easing: boundary values and monotonicity\<close>

lemma easeInOutQuad_low: "t < 1 / 2 \<Longrightarrow> easeInOutQuad t = 2 * t\<^sup>2"
  by (simp add: easeInOutQuad_def power2_eq_square)

lemma easeInOutQuad_high: "1 / 2 \<le> t \<Longrightarrow> easeInOutQuad t = 1 - 2 * (1 - t)\<^sup>2"
  by (simp add: easeInOutQuad_def power2_eq_square algebra_simps)

lemma easeInOutQuad_zero: "easeInOutQuad 0 = 0"
  by (simp add: easeInOutQuad_def)

lemma easeInOutQuad_low_range:
  assumes "0 \<le> t" "t < 1 / 2"
  shows "0 \<le> easeInOutQuad t \<and> easeInOutQuad t \<le> 1 / 2"
proof -
  have "t\<^sup>2 \<le> (1 / 2)\<^sup>2"
    using assms by (intro power_mono) auto
  then have "2 * t\<^sup>2 \<le> 1 / 2"
    by (simp add: power2_eq_square)
  then show ?thesis
    using assms by (simp add: easeInOutQuad_low)
qed

lemma easeInOutQuad_high_range:
  assumes "1 / 2 \<le> t" "t \<le> 1"
  shows "1 / 2 \<le> easeInOutQuad t \<and> easeInOutQuad t \<le> 1"
proof -
  have "(1 - t)\<^sup>2 \<le> (1 / 2)\<^sup>2"
    using assms by (intro power_mono) auto
  then have "2 * (1 - t)\<^sup>2 \<le> 1 / 2"
    by (simp add: power2_eq_square)
  then show ?thesis
    using assms by (simp add: easeInOutQuad_high)
qed

lemma easeInOutQuad_range:
  assumes "0 \<le> t" "t \<le> 1"
  shows "0 \<le> easeInOutQuad t \<and> easeInOutQuad t \<le> 1"
proof (cases "t < 1 / 2")
  case True
  then show ?thesis
    using easeInOutQuad_low_range [of t] assms by simp
next
  case False
  then show ?thesis
    using easeInOutQuad_high_range [of t] assms by simp
qed

lemma easeInOutQuad_mono:
  assumes "0 \<le> t1" "t1 \<le> t2" "t2 \<le> 1"
  shows "easeInOutQuad t1 \<le> easeInOutQuad t2"
proof -
  consider (low) "t2 < 1 / 2" | (mid) "t1 < 1 / 2" "1 / 2 \<le> t2" | (high) "1 / 2 \<le> t1"
    by linarith
  then show ?thesis
  proof cases
    case low
    have "t1\<^sup>2 \<le> t2\<^sup>2"
      using assms by (intro power_mono) auto
    then show ?thesis
      using low assms by (simp add: easeInOutQuad_low)
  next
    case mid
    have "easeInOutQuad t1 \<le> 1 / 2"
      using easeInOutQuad_low_range [of t1] assms mid by simp
    moreover have "1 / 2 \<le> easeInOutQuad t2"
      using easeInOutQuad_high_range [of t2] assms mid by simp
    ultimately show ?thesis by linarith
  next
    case high
    have "(1 - t2)\<^sup>2 \<le> (1 - t1)\<^sup>2"
      using assms by (intro power_mono) auto
    then show ?thesis
      using high assms by (simp add: easeInOutQuad_high)
  qed
qed

text \<open>
  In binary64 the three boundary values are exact, and on the interval from 0 to 1 the
  computed value is within \<open>2 ^ -49\<close> of the exact one.
\<close>

lemma easeInOutQuad_b64_boundary:
  "easeInOutQuad_b64 0 = 0" "easeInOutQuad_b64 1 = 1" "easeInOutQuad_b64 0.5 = 0.5"
  by (simp_all add: easeInOutQuad_b64_def b64_zero b64_one b64_two b64_three b64_three_halves b64_half)

lemma easeInOutQuad_b64_error_low:
  assumes "0 \<le> t" "t < 1 / 2"
  shows "\<bar>easeInOutQuad_b64 t - easeInOutQuad t\<bar> \<le> 1 / 2 ^ 49"
proof -
  define u :: real where "u = 1 / 2 ^ 51"
  have u: "0 < u" "u \<le> 1"
    by (simp_all add: u_def)
  define a where "a = b64 (2 * t)"
  have a: "\<bar>a - 2 * t\<bar> \<le> u"
    unfolding a_def u_def using assms by (intro b64_error_4) simp
  then have "\<bar>a\<bar> \<le> 2"
    using assms u by (simp add: abs_le_iff)
  then have "\<bar>a * t\<bar> \<le> 2 * 1"
    using assms by (intro abs_mult_bound) simp_all
  then have r: "\<bar>b64 (a * t) - a * t\<bar> \<le> u"
    unfolding u_def by (intro b64_error_4) simp
  have "\<bar>(a - 2 * t) * t\<bar> \<le> u * 1"
    using a assms by (intro abs_mult_bound) simp_all
  then have "\<bar>a * t - 2 * t * t\<bar> \<le> u"
    by (simp add: algebra_simps)
  then have "\<bar>b64 (a * t) - 2 * t * t\<bar> \<le> 2 * u"
    using r by linarith
  moreover have "2 * u \<le> 1 / 2 ^ 49"
    by (simp add: u_def)
  ultimately show ?thesis
    using assms by (simp add: easeInOutQuad_b64_def easeInOutQuad_def a_def)
qed

lemma easeInOutQuad_b64_error_high:
  assumes "1 / 2 \<le> t" "t \<le> 1"
  shows "\<bar>easeInOutQuad_b64 t - easeInOutQuad t\<bar> \<le> 1 / 2 ^ 49"
proof -
  define u :: real where "u = 1 / 2 ^ 51"
  have u: "0 < u" "u \<le> 1 / 8"
    by (simp_all add: u_def)
  define a where "a = b64 (2 * t)"
  define b where "b = b64 (4 - a)"
  define c where "c = b64 (b * t)"
  have a: "\<bar>a - 2 * t\<bar> \<le> u"
    unfolding a_def u_def using assms by (intro b64_error_4) simp
  then have "\<bar>4 - a\<bar> \<le> 4"
    using assms u by (simp add: abs_le_iff)
  then have "\<bar>b - (4 - a)\<bar> \<le> u"
    unfolding b_def u_def by (intro b64_error_4)
  then have b: "\<bar>b - (4 - 2 * t)\<bar> \<le> 2 * u"
    using a by linarith
  then have "\<bar>b\<bar> \<le> 4"
    using assms u by (simp add: abs_le_iff)
  then have "\<bar>b * t\<bar> \<le> 4 * 1"
    using assms by (intro abs_mult_bound) simp_all
  then have "\<bar>c - b * t\<bar> \<le> u"
    unfolding c_def u_def by (intro b64_error_4) simp
  moreover have "\<bar>(b - (4 - 2 * t)) * t\<bar> \<le> 2 * u * 1"
    using b assms by (intro abs_mult_bound) simp_all
  then have "\<bar>b * t - (4 - 2 * t) * t\<bar> \<le> 2 * u"
    by (simp add: algebra_simps)
  ultimately have c: "\<bar>c - (4 - 2 * t) * t\<bar> \<le> 3 * u"
    by linarith
  have e: "easeInOutQuad t = - 1 + (4 - 2 * t) * t"
    using assms by (simp add: easeInOutQuad_def)
  have r: "0 \<le> easeInOutQuad t" "easeInOutQuad t \<le> 1"
    using easeInOutQuad_range [of t] assms by simp_all
  then have "\<bar>- 1 + c\<bar> \<le> 4"
    using c e u by (simp add: abs_le_iff)
  then have "\<bar>b64 (- 1 + c) - (- 1 + c)\<bar> \<le> u"
    unfolding u_def by (intro b64_error_4)
  then have "\<bar>b64 (- 1 + c) - easeInOutQuad t\<bar> \<le> 4 * u"
    using c e by linarith
  moreover have "4 * u \<le> 1 / 2 ^ 49"
    by (simp add: u_def)
  moreover have "easeInOutQuad_b64 t = b64 (- 1 + c)"
    using assms by (simp add: easeInOutQuad_b64_def a_def b_def c_def)
  ultimately show ?thesis
    by simp
qed

lemma easeInOutQuad_b64_error:
  assumes "0 \<le> t" "t \<le> 1"
  shows "\<bar>easeInOutQuad_b64 t - easeInOutQuad t\<bar> \<le> 1 / 2 ^ 49"
  using assms easeInOutQuad_b64_error_low [of t] easeInOutQuad_b64_error_high [of t]
  by (cases "t < 1 / 2") simp_all

lemma easeInOutQuad_b64_near_mono:
  assumes "0 \<le> t1" "t1 \<le> t2" "t2 \<le> 1"
  shows "easeInOutQuad_b64 t1 \<le> easeInOutQuad_b64 t2 + 1 / 2 ^ 48"
proof -
  have "\<bar>easeInOutQuad_b64 t1 - easeInOutQuad t1\<bar> \<le> 1 / 2 ^ 49"
       "\<bar>easeInOutQuad_b64 t2 - easeInOutQuad t2\<bar> \<le> 1 / 2 ^ 49"
    using assms by (intro easeInOutQuad_b64_error; simp)+
  moreover have "easeInOutQuad t1 \<le> easeInOutQuad t2"
    using assms by (rule easeInOutQuad_mono)
  moreover have "(1::real) / 2 ^ 49 + 1 / 2 ^ 49 = 1 / 2 ^ 48"
    by simp
  ultimately show ?thesis
    by linarith
qed

text \<open>
  The two binary64 numbers just below 1, \<open>1 - 2 ^ -52\<close> and \<open>1 - 2 ^ -53\<close>: the first is
  mapped to 1, the second to \<open>1 - 2 ^ -52\<close>.
\<close>

lemma easeInOutQuad_b64_upper:
  assumes "\<not> t < 1 / 2" "b64 (2 * t) = a" "b64 (4 - a) = b" "b64 (b * t) = c" "b64 (- 1 + c) = r"
  shows "easeInOutQuad_b64 t = r"
  using assms by (simp add: easeInOutQuad_b64_def)

lemma easeInOutQuad_b64_below_one:
  "easeInOutQuad_b64 (4503599627370495 / 2 ^ 52) = 1"
proof (rule easeInOutQuad_b64_upper)
  show "\<not> (4503599627370495 / 2 ^ 52 :: real) < 1 / 2"
    by simp
  show "b64 (2 * (4503599627370495 / 2 ^ 52)) = 4503599627370495 / 2 ^ 51"
    by (subst b64_eval [where n = 52]) (simp_all add: round_even_def)
  show "b64 (4 - 4503599627370495 / 2 ^ 51) = 4503599627370497 / 2 ^ 51"
    by (subst b64_eval [where n = 51]) (simp_all add: round_even_def)
  show "b64 (4503599627370497 / 2 ^ 51 * (4503599627370495 / 2 ^ 52)) = 2"
    by (subst b64_eval [where n = 52]) (simp_all add: round_even_def)
  show "b64 (- 1 + 2) = 1"
    by (simp add: b64_one)
qed

lemma easeInOutQuad_b64_nearest_one:
  "easeInOutQuad_b64 (9007199254740991 / 2 ^ 53) = 4503599627370495 / 2 ^ 52"
proof (rule easeInOutQuad_b64_upper)
  show "\<not> (9007199254740991 / 2 ^ 53 :: real) < 1 / 2"
    by simp
  show "b64 (2 * (9007199254740991 / 2 ^ 53)) = 9007199254740991 / 2 ^ 52"
    by (subst b64_eval [where n = 52]) (simp_all add: round_even_def)
  show "b64 (4 - 9007199254740991 / 2 ^ 52) = 2"
    by (subst b64_eval [where n = 51]) (simp_all add: round_even_def)
  show "b64 (2 * (9007199254740991 / 2 ^ 53)) = 9007199254740991 / 2 ^ 52"
    by (subst b64_eval [where n = 52]) (simp_all add: round_even_def)
  show "b64 (- 1 + 9007199254740991 / 2 ^ 52) = 4503599627370495 / 2 ^ 52"
    by (subst b64_eval [where n = 53]) (simp_all add: round_even_def)
qed

text \<open>
  Claim C4, as stated, fails for the binary64 numbers of the sketch:
  \<open>t1 = 1 - 2 ^ -52\<close> and \<open>t2 = 1 - 2 ^ -53\<close> are binary64 numbers with
  \<open>0 \<le> t1 \<le> t2 \<le> 1\<close>, and \<open>easeInOutQuad\<close> computes 1 for \<open>t1\<close> and \<open>1 - 2 ^ -52\<close>
  for \<open>t2\<close>, so the value at \<open>t1\<close> is greater than the value at \<open>t2\<close>.
\<close>

theorem C4_counterexample:
  "(0::real) \<le> 4503599627370495 / 2 ^ 52 \<and>
   (4503599627370495 / 2 ^ 52 :: real) \<le> 9007199254740991 / 2 ^ 53 \<and>
   (9007199254740991 / 2 ^ 53 :: real) \<le> 1 \<and>
   b64 (4503599627370495 / 2 ^ 52) = 4503599627370495 / 2 ^ 52 \<and>
   b64 (9007199254740991 / 2 ^ 53) = 9007199254740991 / 2 ^ 53 \<and>
   \<not> easeInOutQuad_b64 (4503599627370495 / 2 ^ 52) \<le> easeInOutQuad_b64 (9007199254740991 / 2 ^ 53)"
proof -
  have d1: "b64 (4503599627370495 / 2 ^ 52) = 4503599627370495 / 2 ^ 52"
    by (subst b64_eval [where n = 53]) (simp_all add: round_even_def)
  have d2: "b64 (9007199254740991 / 2 ^ 53) = 9007199254740991 / 2 ^ 53"
    by (subst b64_eval [where n = 53]) (simp_all add: round_even_def)
  show ?thesis
    unfolding easeInOutQuad_b64_below_one easeInOutQuad_b64_nearest_one d1 d2
    by simp
qed

text \<open>
  Claim C4, amended. In binary64 \<open>easeInOutQuad\<close> maps 0 to 0, 1 to 1 and 0.5 to 0.5.
  For all \<open>t1\<close>, \<open>t2\<close> with \<open>0 \<le> t1 \<le> t2 \<le> 1\<close> the computed value at \<open>t1\<close> is
  within \<open>2 ^ -49\<close> of the exact value of the expression, the exact values are
  non-decreasing, and the computed values are non-decreasing up to \<open>2 ^ -48\<close>: the
  value at \<open>t1\<close> is at most the value at \<open>t2\<close> plus \<open>2 ^ -48\<close>.
\<close>

theorem C4_easeInOutQuad_b64_boundary_near_mono:
  "easeInOutQuad_b64 0 = 0 \<and> easeInOutQuad_b64 1 = 1 \<and> easeInOutQuad_b64 0.5 = 0.5 \<and>
   (\<forall>t1 t2. 0 \<le> t1 \<and> t1 \<le> t2 \<and> t2 \<le> 1 \<longrightarrow>
      \<bar>easeInOutQuad_b64 t1 - easeInOutQuad t1\<bar> \<le> 1 / 2 ^ 49 \<and>
      easeInOutQuad t1 \<le> easeInOutQuad t2 \<and>
      easeInOutQuad_b64 t1 \<le> easeInOutQuad_b64 t2 + 1 / 2 ^ 48)"
proof -
  have "\<bar>easeInOutQuad_b64 t1 - easeInOutQuad t1\<bar> \<le> 1 / 2 ^ 49 \<and>
      easeInOutQuad t1 \<le> easeInOutQuad t2 \<and>
      easeInOutQuad_b64 t1 \<le> easeInOutQuad_b64 t2 + 1 / 2 ^ 48"
    if "0 \<le> t1" "t1 \<le> t2" "t2 \<le> 1" for t1 t2
    using that easeInOutQuad_b64_error [of t1] easeInOutQuad_mono [of t1 t2]
      easeInOutQuad_b64_near_mono [of t1 t2]
    by simp
  then show ?thesis
    using easeInOutQuad_b64_boundary by blast
qed

theorem C4_easeInOutQuad_b64_boundary_near_mono_witness:
  "(0::real) \<le> 4503599627370495 / 2 ^ 52 \<and>
   (4503599627370495 / 2 ^ 52 :: real) \<le> 9007199254740991 / 2 ^ 53 \<and>
   (9007199254740991 / 2 ^ 53 :: real) \<le> 1 \<and>
   easeInOutQuad_b64 (4503599627370495 / 2 ^ 52)
     \<le> easeInOutQuad_b64 (9007199254740991 / 2 ^ 53) + 1 / 2 ^ 48 \<and>
   \<bar>easeInOutQuad_b64 (4503599627370495 / 2 ^ 52) - easeInOutQuad (4503599627370495 / 2 ^ 52)\<bar>
     \<le> 1 / 2 ^ 49"
proof -
  have h: "(0::real) \<le> 4503599627370495 / 2 ^ 52 \<and>
   (4503599627370495 / 2 ^ 52 :: real) \<le> 9007199254740991 / 2 ^ 53 \<and>
   (9007199254740991 / 2 ^ 53 :: real) \<le> 1"
    by simp
  then show ?thesis
    using C4_easeInOutQuad_b64_boundary_near_mono
    by blast
qed

section \<open>The wave scheduler\<close>

lemma combined_bounds:
  assumes "1 / 10 \<le> a" "a \<le> 1"
  shows "0 \<le> combined x z now f a \<and> combined x z now f a \<le> 1"
proof -
  define s1 where "s1 = sin (x * 0.5 + z * 0.5 + now * 3.0)"
  define s2 where "s2 = sin (x * 1.5 * f - z * 1.2 * f + now * 8.0)"
  define c3 where "c3 = cos (z * 0.7 + now * 5.0)"
  have b1: "- 1 \<le> s1" "s1 \<le> 1"
    by (simp_all add: s1_def)
  have b2: "- 1 \<le> s2" "s2 \<le> 1"
    by (simp_all add: s2_def)
  have b3: "- 1 \<le> c3" "c3 \<le> 1"
    by (simp_all add: c3_def)
  have a0: "0 \<le> a"
    using assms by simp
  have "c3 * a \<le> 1 * a" "(- 1) * a \<le> c3 * a"
    using b3 a0 by (intro mult_right_mono; simp)+
  then have w3: "- 1 \<le> c3 * a" "c3 * a \<le> 1"
    using assms by linarith+
  have eq: "combined x z now f a = (s1 * 0.5 + 0.5 + (s2 * 0.25 + 0.5) + (c3 * (0.3 * a) + 0.5)) / 3"
    by (simp add: combined_def Let_def s1_def s2_def c3_def)
  show ?thesis
    unfolding eq using b1 b2 w3 by simp
qed

lemma target_bounds:
  assumes "1 / 10 \<le> a" "a \<le> 1" "0 \<le> mh"
  shows "- mh \<le> - combined x z now f a * mh \<and> - combined x z now f a * mh \<le> 0"
proof -
  have c: "0 \<le> combined x z now f a" "combined x z now f a \<le> 1"
    using combined_bounds [OF assms(1,2)] by simp_all
  have "combined x z now f a * mh \<le> 1 * mh"
    using c assms(3) by (intro mult_right_mono) simp_all
  moreover have "0 \<le> combined x z now f a * mh"
    using c assms(3) by simp
  ultimately show ?thesis by simp
qed

lemma updatePillar_retarget:
  assumes "1 \<le> (elapsedTime p + dt) / animationDuration p"
  shows "updatePillar mh now dt f a p =
           p\<lparr>elapsedTime := 0,
             startHeightFactor := targetHeightFactor p,
             targetHeightFactor := - combined (px p) (pz p) now f a * mh,
             currentHeightFactor := targetHeightFactor p\<rparr>"
  using assms by (simp add: updatePillar_def Let_def easeInOutQuad_zero)

lemma updatePillar_advance:
  assumes "\<not> 1 \<le> (elapsedTime p + dt) / animationDuration p"
  shows "updatePillar mh now dt f a p =
           p\<lparr>elapsedTime := elapsedTime p + dt,
             currentHeightFactor := startHeightFactor p +
               (targetHeightFactor p - startHeightFactor p) *
                 easeInOutQuad ((elapsedTime p + dt) / animationDuration p)\<rparr>"
  using assms by (simp add: updatePillar_def Let_def)

text \<open>
  Claim C2. For every pillar position \<open>(x, z)\<close>, every time \<open>now\<close>, every
  \<open>freqMultiplier\<close> between 0.1 and 3.0 and every \<open>ampMultiplier\<close> between 0.1 and 1.0,
  the value \<open>combined\<close> computed at a retarget lies between 0 and 1, and therefore the
  new \<open>targetHeightFactor = - combined * maxHeight\<close> that \<open>updatePillars\<close> stores lies
  between \<open>- maxHeight\<close> and 0 (for a non-negative \<open>maxHeight\<close>; the sketch has 25).
\<close>

theorem C2_target_in_range:
  assumes "0.1 \<le> freqMultiplier" "freqMultiplier \<le> 3.0"
      and "0.1 \<le> ampMultiplier" "ampMultiplier \<le> 1.0"
      and "0 \<le> maxHeight"
  shows "0 \<le> combined x z now freqMultiplier ampMultiplier \<and>
         combined x z now freqMultiplier ampMultiplier \<le> 1 \<and>
         (\<forall>p dt. px p = x \<and> pz p = z \<and> 1 \<le> (elapsedTime p + dt) / animationDuration p \<longrightarrow>
            targetHeightFactor (updatePillar maxHeight now dt freqMultiplier ampMultiplier p)
              = - combined x z now freqMultiplier ampMultiplier * maxHeight \<and>
            - maxHeight \<le> targetHeightFactor (updatePillar maxHeight now dt freqMultiplier ampMultiplier p) \<and>
            targetHeightFactor (updatePillar maxHeight now dt freqMultiplier ampMultiplier p) \<le> 0)"
proof -
  have a: "1 / 10 \<le> ampMultiplier" "ampMultiplier \<le> 1"
    using assms by simp_all
  show ?thesis
    using combined_bounds [OF a, of x z now freqMultiplier]
      target_bounds [OF a assms(5), of x z now freqMultiplier]
    by (simp add: updatePillar_retarget)
qed

theorem C2_target_in_range_witness:
  "(0.1::real) \<le> 1 \<and> (1::real) \<le> 3.0 \<and> (1::real) \<le> 1.0 \<and> (0::real) \<le> 25 \<and>
   px pillar_demo = 0 \<and> pz pillar_demo = 0 \<and>
   1 \<le> (elapsedTime pillar_demo + 1 / 4) / animationDuration pillar_demo \<and>
   combined 0 0 0 1 1 = 3 / 5 \<and>
   targetHeightFactor (updatePillar 25 0 (1 / 4) 1 1 pillar_demo) = - 15 \<and>
   - 25 \<le> targetHeightFactor (updatePillar 25 0 (1 / 4) 1 1 pillar_demo) \<and>
   targetHeightFactor (updatePillar 25 0 (1 / 4) 1 1 pillar_demo) \<le> 0"
proof -
  have c: "combined 0 0 0 1 1 = 3 / 5"
    by (simp add: combined_def)
  have h: "px pillar_demo = 0 \<and> pz pillar_demo = 0 \<and>
           1 \<le> (elapsedTime pillar_demo + 1 / 4) / animationDuration pillar_demo"
    by (simp add: pillar_demo_def)
  have "targetHeightFactor (updatePillar 25 0 (1 / 4) 1 1 pillar_demo) = - combined 0 0 0 1 1 * 25 \<and>
        - 25 \<le> targetHeightFactor (updatePillar 25 0 (1 / 4) 1 1 pillar_demo) \<and>
        targetHeightFactor (updatePillar 25 0 (1 / 4) 1 1 pillar_demo) \<le> 0"
    using C2_target_in_range [of 1 1 25 0 0 0] h by simp
  then show ?thesis
    using c h by simp
qed

lemma interpolate_bounds:
  fixes lo hi :: real
  assumes "lo \<le> u" "u \<le> hi" "lo \<le> v" "v \<le> hi" "0 \<le> s" "s \<le> 1"
  shows "lo \<le> u + (v - u) * s \<and> u + (v - u) * s \<le> hi"
proof -
  have eq: "u + (v - u) * s = (1 - s) * u + s * v"
    by (simp add: algebra_simps)
  have "(1 - s) * lo \<le> (1 - s) * u" "s * lo \<le> s * v"
       "(1 - s) * u \<le> (1 - s) * hi" "s * v \<le> s * hi"
    using assms by (intro mult_left_mono; simp)+
  then have "(1 - s) * lo + s * lo \<le> (1 - s) * u + s * v"
            "(1 - s) * u + s * v \<le> (1 - s) * hi + s * hi"
    by linarith+
  then show ?thesis
    unfolding eq by (simp add: algebra_simps)
qed

lemma init_ok_pillar_inv: "init_ok mh p \<Longrightarrow> pillar_inv mh p"
  by (simp add: init_ok_def pillar_inv_def)

lemma initPillars_init_ok:
  assumes "\<And>row col. row < rows \<Longrightarrow> col < cols \<Longrightarrow>
             (case draws row col of (r1, r2, r3) \<Rightarrow>
                1 \<le> r1 \<and> r1 \<le> mh \<and> 1 \<le> r2 \<and> r2 \<le> mh \<and> 1 / 10 \<le> r3 \<and> r3 \<le> 33 / 100)"
      and "p \<in> set (initPillars rows cols spacing draws)"
  shows "init_ok mh p"
proof -
  obtain row col where rc: "row < rows" "col < cols"
    and p: "p = (let x = real col * spacing - (real cols * spacing) / 2.0;
            z = real row * spacing - (real rows * spacing) / 2.0
        in case draws row col of (r1, r2, r3) \<Rightarrow>
          (let startH = - r1;
               targetH = - r2;
               animationDuration = r3
           in \<lparr>px = x, pz = z,
               startHeightFactor = startH,
               targetHeightFactor = targetH,
               currentHeightFactor = startH,
               elapsedTime = 0.0,
               animationDuration = animationDuration\<rparr>))"
    using assms(2) by (auto simp: initPillars_def)
  obtain r1 r2 r3 where d: "draws row col = (r1, r2, r3)"
    by (cases "draws row col") auto
  have "1 \<le> r1 \<and> r1 \<le> mh \<and> 1 \<le> r2 \<and> r2 \<le> mh \<and> 1 / 10 \<le> r3 \<and> r3 \<le> 33 / 100"
    using assms(1) [OF rc] by (simp add: d)
  then show ?thesis
    by (simp add: p d init_ok_def Let_def)
qed

lemma updatePillar_inv:
  assumes inv: "pillar_inv mh p" and dt: "0 \<le> dt" and a: "1 / 10 \<le> a" "a \<le> 1"
  shows "pillar_inv mh (updatePillar mh now dt f a p)"
proof (cases "1 \<le> (elapsedTime p + dt) / animationDuration p")
  case True
  have mh: "0 \<le> mh"
    using inv by (simp add: pillar_inv_def)
  show ?thesis
    using inv target_bounds [OF a mh, of "px p" "pz p" now f]
    by (simp add: updatePillar_retarget [OF True] pillar_inv_def)
next
  case False
  have d: "0 < animationDuration p"
    using inv by (simp add: pillar_inv_def)
  have lt: "elapsedTime p + dt < animationDuration p"
    using False d by (simp add: pos_le_divide_eq)
  have ge: "0 \<le> elapsedTime p + dt"
    using inv dt by (simp add: pillar_inv_def)
  have t: "0 \<le> (elapsedTime p + dt) / animationDuration p"
          "(elapsedTime p + dt) / animationDuration p \<le> 1"
    using d lt ge by simp_all
  have "- mh \<le> startHeightFactor p + (targetHeightFactor p - startHeightFactor p) *
            easeInOutQuad ((elapsedTime p + dt) / animationDuration p) \<and>
        startHeightFactor p + (targetHeightFactor p - startHeightFactor p) *
            easeInOutQuad ((elapsedTime p + dt) / animationDuration p) \<le> 0"
    using inv easeInOutQuad_range [OF t]
    by (intro interpolate_bounds) (simp_all add: pillar_inv_def)
  then show ?thesis
    using inv lt ge by (simp add: updatePillar_advance [OF False] pillar_inv_def)
qed

lemma runFrames_inv:
  assumes "\<forall>p\<in>set ps. pillar_inv mh p" "\<forall>fr\<in>set frames. frame_ok fr"
  shows "\<forall>p\<in>set (runFrames mh frames ps). pillar_inv mh p"
  using assms
proof (induction frames arbitrary: ps)
  case Nil
  then show ?case by simp
next
  case (Cons fr frames)
  obtain now dt f a where fr: "fr = (now, dt, f, a)"
    by (cases fr) auto
  have ok: "0 \<le> dt" "1 / 10 \<le> a" "a \<le> 1"
    using Cons.prems(2) by (simp_all add: fr frame_ok_def)
  have "\<forall>p\<in>set (updatePillars mh now dt f a ps). pillar_inv mh p"
    using Cons.prems(1) updatePillar_inv [OF _ ok] by (auto simp: updatePillars_def)
  moreover have "\<forall>fr\<in>set frames. frame_ok fr"
    using Cons.prems(2) by simp
  ultimately show ?case
    using Cons.IH by (simp add: fr)
qed

lemma frames_take_ok: "\<forall>fr\<in>set frames. frame_ok fr \<Longrightarrow> \<forall>fr\<in>set (take n frames). frame_ok fr"
  by (meson in_set_takeD)

text \<open>
  Claim C3. Starting from pillar states as \<open>initPillars\<close> produces them (the three
  height factors between \<open>- maxHeight\<close> and 0, elapsed time 0, positive duration), after
  every finite sequence of \<open>updatePillars\<close> steps with \<open>dt \<ge> 0\<close>, \<open>freqMultiplier\<close>
  between 0.1 and 3.0 and \<open>ampMultiplier\<close> between 0.1 and 1.0, and after every prefix of
  it, every pillar's \<open>currentHeightFactor\<close> is between \<open>- maxHeight\<close> and 0. The
  instance below is the scenario with \<open>maxHeight = 10\<close>, a grid of 2 by 2 pillars and
  10 steps of \<open>dt = 0.05\<close>.
\<close>

theorem C3_height_invariant:
  assumes "\<forall>p\<in>set pillars. init_ok maxHeight p"
      and "\<forall>fr\<in>set frames. frame_ok fr"
  shows "\<forall>n. \<forall>p\<in>set (runFrames maxHeight (take n frames) pillars).
           - maxHeight \<le> currentHeightFactor p \<and> currentHeightFactor p \<le> 0"
proof
  fix n
  have "\<forall>p\<in>set pillars. pillar_inv maxHeight p"
    using assms(1) init_ok_pillar_inv by blast
  then have "\<forall>p\<in>set (runFrames maxHeight (take n frames) pillars). pillar_inv maxHeight p"
    using frames_take_ok [OF assms(2)] by (intro runFrames_inv) simp_all
  then show "\<forall>p\<in>set (runFrames maxHeight (take n frames) pillars).
           - maxHeight \<le> currentHeightFactor p \<and> currentHeightFactor p \<le> 0"
    by (simp add: pillar_inv_def)
qed

theorem C3_height_invariant_witness:
  "list_all (init_ok 10) pillars_demo \<and> list_all frame_ok frames_demo \<and>
   length pillars_demo = 4 \<and> length frames_demo = 10 \<and>
   (\<forall>n. list_all (\<lambda>p. - 10 \<le> currentHeightFactor p \<and> currentHeightFactor p \<le> 0)
      (runFrames 10 (take n frames_demo) pillars_demo))"
proof -
  have two: "[0..<2] = [0, Suc 0]"
    by (simp add: upt_rec)
  have h1: "\<forall>p\<in>set pillars_demo. init_ok 10 p"
    by (simp add: pillars_demo_def initPillars_def two init_ok_def Let_def)
  have h2: "\<forall>fr\<in>set frames_demo. frame_ok fr"
    by (simp add: frames_demo_def frame_ok_def)
  have l1: "length pillars_demo = 4"
    by (simp add: pillars_demo_def initPillars_def two)
  have l2: "length frames_demo = 10"
    by (simp add: frames_demo_def)
  have "\<forall>n. \<forall>p\<in>set (runFrames 10 (take n frames_demo) pillars_demo).
      - 10 \<le> currentHeightFactor p \<and> currentHeightFactor p \<le> 0"
    using C3_height_invariant [OF h1 h2] by simp
  then show ?thesis
    using h1 h2 l1 l2 by (simp add: list_all_iff)
qed

text \<open>
  Claim C5. For every pillar and every update step in which the fraction
  \<open>t = elapsedTime / animationDuration\<close>, taken after \<open>dt\<close> is added, reaches or exceeds 1,
  the pillar's \<open>elapsedTime\<close> is 0 after the step and its \<open>currentHeightFactor\<close> equals
  its \<open>startHeightFactor\<close>, which is the \<open>targetHeightFactor\<close> it had before the step.
  (The premise excludes the duration 0, for which the quotient of the model is 0.)
\<close>

theorem C5_retarget_resets:
  assumes "i < length pillars"
      and "1.0 \<le> (elapsedTime (pillars ! i) + dt) / animationDuration (pillars ! i)"
  shows "elapsedTime (updatePillars maxHeight now dt freqMultiplier ampMultiplier pillars ! i) = 0 \<and>
         currentHeightFactor (updatePillars maxHeight now dt freqMultiplier ampMultiplier pillars ! i)
           = startHeightFactor (updatePillars maxHeight now dt freqMultiplier ampMultiplier pillars ! i) \<and>
         startHeightFactor (updatePillars maxHeight now dt freqMultiplier ampMultiplier pillars ! i)
           = targetHeightFactor (pillars ! i)"
proof -
  have "1 \<le> (elapsedTime (pillars ! i) + dt) / animationDuration (pillars ! i)"
    using assms(2) by simp
  then show ?thesis
    using assms(1) by (simp add: updatePillars_def updatePillar_retarget)
qed

theorem C5_retarget_resets_witness:
  "(0::nat) < length [pillar_demo] \<and>
   1.0 \<le> (elapsedTime ([pillar_demo] ! 0) + 1 / 4) / animationDuration ([pillar_demo] ! 0) \<and>
   elapsedTime (updatePillars 25 0 (1 / 4) 1 1 [pillar_demo] ! 0) = 0 \<and>
   currentHeightFactor (updatePillars 25 0 (1 / 4) 1 1 [pillar_demo] ! 0) = - 3 \<and>
   startHeightFactor (updatePillars 25 0 (1 / 4) 1 1 [pillar_demo] ! 0) = - 3"
proof -
  have h: "(0::nat) < length [pillar_demo]"
    "1.0 \<le> (elapsedTime ([pillar_demo] ! 0) + 1 / 4) / animationDuration ([pillar_demo] ! 0)"
    by (simp_all add: pillar_demo_def)
  show ?thesis
    using C5_retarget_resets [OF h, of 25 0 1 1] h by (simp add: pillar_demo_def)
qed

lemma init_ok_time_inv: "init_ok mh p \<Longrightarrow> time_inv p"
  by (simp add: init_ok_def time_inv_def)

lemma updatePillar_elapsed:
  assumes "0 < animationDuration p"
  shows "elapsedTime (updatePillar mh now dt f a p) =
           (if elapsedTime p + dt < animationDuration p then elapsedTime p + dt else 0)"
proof (cases "1 \<le> (elapsedTime p + dt) / animationDuration p")
  case True
  then have "\<not> elapsedTime p + dt < animationDuration p"
    using assms by (simp add: pos_le_divide_eq)
  then show ?thesis
    by (simp add: updatePillar_retarget [OF True])
next
  case False
  then have "elapsedTime p + dt < animationDuration p"
    using assms by (simp add: pos_le_divide_eq)
  then show ?thesis
    by (simp add: updatePillar_advance [OF False])
qed

lemma updatePillar_duration:
  "animationDuration (updatePillar mh now dt f a p) = animationDuration p"
  by (cases "1 \<le> (elapsedTime p + dt) / animationDuration p")
     (simp_all add: updatePillar_retarget updatePillar_advance)

lemma updatePillar_time_inv:
  assumes "time_inv p" "0 \<le> dt"
  shows "time_inv (updatePillar mh now dt f a p)"
  using assms by (simp add: time_inv_def updatePillar_elapsed updatePillar_duration)

lemma runFrames_time_inv:
  assumes "\<forall>p\<in>set ps. time_inv p" "\<forall>fr\<in>set frames. 0 \<le> frame_dt fr"
  shows "\<forall>p\<in>set (runFrames mh frames ps). time_inv p"
  using assms
proof (induction frames arbitrary: ps)
  case Nil
  then show ?case by simp
next
  case (Cons fr frames)
  obtain now dt f a where fr: "fr = (now, dt, f, a)"
    by (cases fr) auto
  have dt: "0 \<le> dt"
    using Cons.prems(2) by (simp add: fr frame_dt_def)
  have "\<forall>p\<in>set (updatePillars mh now dt f a ps). time_inv p"
    using Cons.prems(1) updatePillar_time_inv [OF _ dt] by (auto simp: updatePillars_def)
  moreover have "\<forall>fr\<in>set frames. 0 \<le> frame_dt fr"
    using Cons.prems(2) by simp
  ultimately show ?case
    using Cons.IH by (simp add: fr)
qed

text \<open>
  Claim C6. For a pillar \<open>p\<close> in any state the sketch reaches (from \<open>initPillars\<close> by
  frames with \<open>dt \<ge> 0\<close>), one call of the per-pillar update tolerates any \<open>dt \<ge> 0\<close>:
  with \<open>dt = 0\<close> the elapsed time, the duration, and the start and target of the
  transition are unchanged, so the fraction does not progress; with any \<open>dt\<close>, however
  large, the new \<open>elapsedTime\<close> is the old one plus \<open>dt\<close> when that is below
  \<open>animationDuration\<close>, and otherwise exactly 0 after exactly one retarget: the start is
  the old target, and the target is the one wave value computed in this call.
\<close>

theorem C6_single_retarget_per_call:
  assumes "\<forall>q\<in>set pillars. init_ok maxHeight q"
      and "\<forall>fr\<in>set frames. 0 \<le> frame_dt fr"
      and "p \<in> set (runFrames maxHeight frames pillars)"
  shows "elapsedTime (updatePillar maxHeight now 0 f a p) = elapsedTime p \<and>
         animationDuration (updatePillar maxHeight now 0 f a p) = animationDuration p \<and>
         startHeightFactor (updatePillar maxHeight now 0 f a p) = startHeightFactor p \<and>
         targetHeightFactor (updatePillar maxHeight now 0 f a p) = targetHeightFactor p \<and>
         (\<forall>dt\<ge>0.
            (if elapsedTime p + dt < animationDuration p
             then elapsedTime (updatePillar maxHeight now dt f a p) = elapsedTime p + dt \<and>
                  startHeightFactor (updatePillar maxHeight now dt f a p) = startHeightFactor p \<and>
                  targetHeightFactor (updatePillar maxHeight now dt f a p) = targetHeightFactor p
             else elapsedTime (updatePillar maxHeight now dt f a p) = 0 \<and>
                  startHeightFactor (updatePillar maxHeight now dt f a p) = targetHeightFactor p \<and>
                  targetHeightFactor (updatePillar maxHeight now dt f a p)
                    = - combined (px p) (pz p) now f a * maxHeight \<and>
                  currentHeightFactor (updatePillar maxHeight now dt f a p) = targetHeightFactor p))"
proof -
  have "\<forall>q\<in>set pillars. time_inv q"
    using assms(1) init_ok_time_inv by blast
  then have inv: "time_inv p"
    using runFrames_time_inv [OF _ assms(2)] assms(3) by blast
  then have d: "0 < animationDuration p" and lt: "elapsedTime p < animationDuration p"
    by (simp_all add: time_inv_def)
  have no: "\<not> 1 \<le> (elapsedTime p + 0) / animationDuration p"
    using d lt by (simp add: pos_le_divide_eq)
  have zero: "elapsedTime (updatePillar maxHeight now 0 f a p) = elapsedTime p \<and>
         animationDuration (updatePillar maxHeight now 0 f a p) = animationDuration p \<and>
         startHeightFactor (updatePillar maxHeight now 0 f a p) = startHeightFactor p \<and>
         targetHeightFactor (updatePillar maxHeight now 0 f a p) = targetHeightFactor p"
    by (simp add: updatePillar_advance [OF no])
  have step: "if elapsedTime p + dt < animationDuration p
             then elapsedTime (updatePillar maxHeight now dt f a p) = elapsedTime p + dt \<and>
                  startHeightFactor (updatePillar maxHeight now dt f a p) = startHeightFactor p \<and>
                  targetHeightFactor (updatePillar maxHeight now dt f a p) = targetHeightFactor p
             else elapsedTime (updatePillar maxHeight now dt f a p) = 0 \<and>
                  startHeightFactor (updatePillar maxHeight now dt f a p) = targetHeightFactor p \<and>
                  targetHeightFactor (updatePillar maxHeight now dt f a p)
                    = - combined (px p) (pz p) now f a * maxHeight \<and>
                  currentHeightFactor (updatePillar maxHeight now dt f a p) = targetHeightFactor p"
    for dt
  proof (cases "elapsedTime p + dt < animationDuration p")
    case True
    then have "\<not> 1 \<le> (elapsedTime p + dt) / animationDuration p"
      using d by (simp add: pos_le_divide_eq)
    then show ?thesis
      using True by (simp add: updatePillar_advance)
  next
    case False
    then have "1 \<le> (elapsedTime p + dt) / animationDuration p"
      using d by (simp add: pos_le_divide_eq)
    then show ?thesis
      using False by (simp add: updatePillar_retarget)
  qed
  show ?thesis
    using zero step by blast
qed

theorem C6_single_retarget_per_call_witness:
  "list_all (init_ok 25) [pillar_demo] \<and>
   list_all (\<lambda>fr. 0 \<le> frame_dt fr) [(0, 1 / 20, 1, 1)] \<and>
   updatePillar 25 0 (1 / 20) 1 1 pillar_demo \<in> set (runFrames 25 [(0, 1 / 20, 1, 1)] [pillar_demo]) \<and>
   elapsedTime (updatePillar 25 0 (1 / 20) 1 1 pillar_demo) = 1 / 20 \<and>
   elapsedTime (updatePillar 25 1 0 1 1 (updatePillar 25 0 (1 / 20) 1 1 pillar_demo)) = 1 / 20 \<and>
   elapsedTime (updatePillar 25 1 (1 / 10) 1 1 (updatePillar 25 0 (1 / 20) 1 1 pillar_demo)) = 3 / 20 \<and>
   elapsedTime (updatePillar 25 1 1000 1 1 (updatePillar 25 0 (1 / 20) 1 1 pillar_demo)) = 0 \<and>
   startHeightFactor (updatePillar 25 1 1000 1 1 (updatePillar 25 0 (1 / 20) 1 1 pillar_demo)) = - 3"
proof -
  have h1: "\<forall>q\<in>set [pillar_demo]. init_ok 25 q"
    by (simp add: init_ok_def pillar_demo_def)
  have h2: "\<forall>fr\<in>set [(0::real, 1 / 20 :: real, 1::real, 1::real)]. 0 \<le> frame_dt fr"
    by (simp add: frame_dt_def)
  have h3: "updatePillar 25 0 (1 / 20) 1 1 pillar_demo \<in> set (runFrames 25 [(0, 1 / 20, 1, 1)] [pillar_demo])"
    by (simp add: updatePillars_def)
  have e: "elapsedTime (updatePillar 25 0 (1 / 20) 1 1 pillar_demo) = 1 / 20"
          "animationDuration (updatePillar 25 0 (1 / 20) 1 1 pillar_demo) = 1 / 5"
          "targetHeightFactor (updatePillar 25 0 (1 / 20) 1 1 pillar_demo) = - 3"
    by (simp_all add: updatePillar_def pillar_demo_def Let_def)
  note c = C6_single_retarget_per_call [OF h1 h2 h3, of 1 1 1]
  have z: "elapsedTime (updatePillar 25 1 0 1 1 (updatePillar 25 0 (1 / 20) 1 1 pillar_demo)) = 1 / 20"
    using c e by simp
  have "(0::real) \<le> 1 / 10" "(0::real) \<le> 1000"
    by simp_all
  then have
    "elapsedTime (updatePillar 25 1 (1 / 10) 1 1 (updatePillar 25 0 (1 / 20) 1 1 pillar_demo)) = 3 / 20"
    "elapsedTime (updatePillar 25 1 1000 1 1 (updatePillar 25 0 (1 / 20) 1 1 pillar_demo)) = 0"
    "startHeightFactor (updatePillar 25 1 1000 1 1 (updatePillar 25 0 (1 / 20) 1 1 pillar_demo)) = - 3"
    using c e by (auto split: if_splits)
  then show ?thesis
    using h1 h2 h3 e z by (simp add: list_all_iff)
qed

section \<open>Rotation about the Y axis\<close>

lemma rotate_back_x:
  "((a::real) * cos t - c * sin t) * cos t + (a * sin t + c * cos t) * sin t = a"
proof -
  have "(a * cos t - c * sin t) * cos t + (a * sin t + c * cos t) * sin t
          = a * ((sin t)\<^sup>2 + (cos t)\<^sup>2)"
    by (simp only: power2_eq_square algebra_simps)
  then show ?thesis
    by (simp only: sin_cos_squared_add mult_1_right)
qed

lemma rotate_back_z:
  "((a::real) * sin t + c * cos t) * cos t - (a * cos t - c * sin t) * sin t = c"
proof -
  have "(a * sin t + c * cos t) * cos t - (a * cos t - c * sin t) * sin t
          = c * ((sin t)\<^sup>2 + (cos t)\<^sup>2)"
    by (simp only: power2_eq_square algebra_simps)
  then show ?thesis
    by (simp only: sin_cos_squared_add mult_1_right)
qed

text \<open>
  In the exact model the rotation that \<open>createCube\<close> applies to a corner, taken before
  the translation (all offsets 0), is undone by the same formula at the opposite angle.
\<close>

lemma transformCorner_round_trip_exact:
  "transformCorner (cos (- \<theta>)) (sin (- \<theta>)) 0 0 0
     (transformCorner (cos \<theta>) (sin \<theta>) 0 0 0 p) = p"
proof -
  obtain a b c where p: "p = (a, b, c)"
    by (cases p) auto
  have "transformCorner (cos (- \<theta>)) (sin (- \<theta>)) 0 0 0
          (transformCorner (cos \<theta>) (sin \<theta>) 0 0 0 (a, b, c))
        = ((a * cos \<theta> - c * sin \<theta>) * cos \<theta> + (a * sin \<theta> + c * cos \<theta>) * sin \<theta>, b,
           (a * sin \<theta> + c * cos \<theta>) * cos \<theta> - (a * cos \<theta> - c * sin \<theta>) * sin \<theta>)"
    by (simp add: transformCorner_def Let_def)
  then show ?thesis
    unfolding p by (simp only: rotate_back_x rotate_back_z)
qed

text \<open>
  The round trip in binary64 at the angle 0.7, for the corner \<open>(-0.5, -0.5, -0.5)\<close>,
  operation by operation.
\<close>

lemma transformCorner_b64_steps:
  assumes "b64 (c0 * cosA) = p1" "b64 (c2 * sinA) = p2" "b64 (p1 - p2) = X"
    and "b64 (c0 * sinA) = p3" "b64 (c2 * cosA) = p4" "b64 (p3 + p4) = Z"
    and "b64 (X + xOffset) = X'" "b64 (c1 + yOffset) = Y'" "b64 (Z + zOffset) = Z'"
  shows "transformCorner_b64 cosA sinA xOffset yOffset zOffset (c0, c1, c2) = (X', Y', Z')"
  using assms by (simp add: transformCorner_b64_def)

lemma rotate_0_7:
  "transformCorner_b64 (6889085979303315 / 2 ^ 53) (725324634047287 / 2 ^ 50) 0 0 0
     (- (1 / 2), - (1 / 2), - (1 / 2)) =
   (- (1086488906925019 / 2 ^ 54), - (1 / 2), - (3172920762920403 / 2 ^ 52))"
proof (rule transformCorner_b64_steps)
  show "b64 ((- (1 / 2)) * (6889085979303315 / 2 ^ 53)) = - (6889085979303315 / 2 ^ 54)"
    by (subst b64_eval [where n = 54]) (simp_all add: round_even_def)
  show "b64 ((- (1 / 2)) * (725324634047287 / 2 ^ 50)) = - (725324634047287 / 2 ^ 51)"
    by (subst b64_eval [where n = 54]) (simp_all add: round_even_def)
  show "b64 ((- (6889085979303315 / 2 ^ 54)) - (- (725324634047287 / 2 ^ 51))) = - (1086488906925019 / 2 ^ 54)"
    by (subst b64_eval [where n = 57]) (simp_all add: round_even_def)
  show "b64 ((- (1 / 2)) * (725324634047287 / 2 ^ 50)) = - (725324634047287 / 2 ^ 51)"
    by (subst b64_eval [where n = 54]) (simp_all add: round_even_def)
  show "b64 ((- (1 / 2)) * (6889085979303315 / 2 ^ 53)) = - (6889085979303315 / 2 ^ 54)"
    by (subst b64_eval [where n = 54]) (simp_all add: round_even_def)
  show "b64 ((- (725324634047287 / 2 ^ 51)) + (- (6889085979303315 / 2 ^ 54))) = - (3172920762920403 / 2 ^ 52)"
    by (subst b64_eval [where n = 53]) (simp_all add: round_even_def)
  show "b64 ((- (1086488906925019 / 2 ^ 54)) + 0) = - (1086488906925019 / 2 ^ 54)"
    by (subst b64_eval [where n = 57]) (simp_all add: round_even_def)
  show "b64 ((- (1 / 2)) + 0) = - (1 / 2)"
    by (subst b64_eval [where n = 53]) (simp_all add: round_even_def)
  show "b64 ((- (3172920762920403 / 2 ^ 52)) + 0) = - (3172920762920403 / 2 ^ 52)"
    by (subst b64_eval [where n = 53]) (simp_all add: round_even_def)
qed

lemma rotate_back_0_7:
  "transformCorner_b64 (6889085979303315 / 2 ^ 53) (- (725324634047287 / 2 ^ 50)) 0 0 0
     (- (1086488906925019 / 2 ^ 54), - (1 / 2), - (3172920762920403 / 2 ^ 52)) =
   (- (4503599627370497 / 2 ^ 53), - (1 / 2), - (4503599627370497 / 2 ^ 53))"
proof (rule transformCorner_b64_steps)
  show "b64 ((- (1086488906925019 / 2 ^ 54)) * (6889085979303315 / 2 ^ 53)) = - (6647940416262917 / 2 ^ 57)"
    by (subst b64_eval [where n = 57]) (simp_all add: round_even_def)
  show "b64 ((- (3172920762920403 / 2 ^ 52)) * (- (725324634047287 / 2 ^ 50))) = 8176206702708129 / 2 ^ 54"
    by (subst b64_eval [where n = 54]) (simp_all add: round_even_def)
  show "b64 ((- (6647940416262917 / 2 ^ 57)) - (8176206702708129 / 2 ^ 54)) = - (4503599627370497 / 2 ^ 53)"
    by (subst b64_eval [where n = 53]) (simp_all add: round_even_def)
  show "b64 ((- (1086488906925019 / 2 ^ 54)) * (- (725324634047287 / 2 ^ 50))) = 5599482966629141 / 2 ^ 57"
    by (subst b64_eval [where n = 57]) (simp_all add: round_even_def)
  show "b64 ((- (3172920762920403 / 2 ^ 52)) * (6889085979303315 / 2 ^ 53)) = - (2426783656392409 / 2 ^ 52)"
    by (subst b64_eval [where n = 53]) (simp_all add: round_even_def)
  show "b64 ((5599482966629141 / 2 ^ 57) + (- (2426783656392409 / 2 ^ 52))) = - (4503599627370497 / 2 ^ 53)"
    by (subst b64_eval [where n = 53]) (simp_all add: round_even_def)
  show "b64 ((- (4503599627370497 / 2 ^ 53)) + 0) = - (4503599627370497 / 2 ^ 53)"
    by (subst b64_eval [where n = 53]) (simp_all add: round_even_def)
  show "b64 ((- (1 / 2)) + 0) = - (1 / 2)"
    by (subst b64_eval [where n = 53]) (simp_all add: round_even_def)
  show "b64 ((- (4503599627370497 / 2 ^ 53)) + 0) = - (4503599627370497 / 2 ^ 53)"
    by (subst b64_eval [where n = 53]) (simp_all add: round_even_def)
qed

text \<open>
  The error of the round trip. The two rotations compose to the rotation by the matrix
  with entries \<open>cosA * cosB - sinA * sinB\<close> and \<open>sinA * cosB + cosA * sinB\<close>, each
  rounding moves a value of magnitude below 8 by at most \<open>2 ^ -50\<close>, and values
  of \<open>cos\<close> and \<open>sin\<close> within \<open>2 ^ -53\<close> of the exact ones compose to the identity
  within \<open>2 ^ -50\<close>.
\<close>

lemma rounded_difference:
  assumes "\<bar>P\<bar> \<le> 3" "\<bar>Q\<bar> \<le> 3"
  shows "\<bar>b64 (b64 (b64 P - b64 Q) + 0) - (P - Q)\<bar> \<le> 4 / 2 ^ 50"
proof -
  define u :: real where "u = 1 / 2 ^ 50"
  have u: "0 < u" "u \<le> 1 / 8"
    by (simp_all add: u_def)
  have p: "\<bar>b64 P - P\<bar> \<le> u" and q: "\<bar>b64 Q - Q\<bar> \<le> u"
    unfolding u_def using assms by (intro b64_error_8; simp)+
  then have "\<bar>b64 P - b64 Q\<bar> \<le> 8"
    using assms u by (simp add: abs_le_iff)
  then have d: "\<bar>b64 (b64 P - b64 Q) - (b64 P - b64 Q)\<bar> \<le> u"
    unfolding u_def by (intro b64_error_8)
  then have "\<bar>b64 (b64 P - b64 Q)\<bar> \<le> 8"
    using p q assms u by (simp add: abs_le_iff)
  then have "\<bar>b64 (b64 (b64 P - b64 Q)) - b64 (b64 P - b64 Q)\<bar> \<le> u"
    unfolding u_def by (intro b64_error_8)
  then have "\<bar>b64 (b64 (b64 P - b64 Q)) - (P - Q)\<bar> \<le> 4 * u"
    using p q d by linarith
  then show ?thesis
    by (simp add: u_def)
qed

lemma rounded_sum:
  assumes "\<bar>P\<bar> \<le> 3" "\<bar>Q\<bar> \<le> 3"
  shows "\<bar>b64 (b64 (b64 P + b64 Q) + 0) - (P + Q)\<bar> \<le> 4 / 2 ^ 50"
proof -
  define u :: real where "u = 1 / 2 ^ 50"
  have u: "0 < u" "u \<le> 1 / 8"
    by (simp_all add: u_def)
  have p: "\<bar>b64 P - P\<bar> \<le> u" and q: "\<bar>b64 Q - Q\<bar> \<le> u"
    unfolding u_def using assms by (intro b64_error_8; simp)+
  then have "\<bar>b64 P + b64 Q\<bar> \<le> 8"
    using assms u by (simp add: abs_le_iff)
  then have d: "\<bar>b64 (b64 P + b64 Q) - (b64 P + b64 Q)\<bar> \<le> u"
    unfolding u_def by (intro b64_error_8)
  then have "\<bar>b64 (b64 P + b64 Q)\<bar> \<le> 8"
    using p q assms u by (simp add: abs_le_iff)
  then have "\<bar>b64 (b64 (b64 P + b64 Q)) - b64 (b64 P + b64 Q)\<bar> \<le> u"
    unfolding u_def by (intro b64_error_8)
  then have "\<bar>b64 (b64 (b64 P + b64 Q)) - (P + Q)\<bar> \<le> 4 * u"
    using p q d by linarith
  then show ?thesis
    by (simp add: u_def)
qed

lemma transformCorner_b64_error:
  assumes "\<bar>x\<bar> \<le> 3" "\<bar>z\<bar> \<le> 3" "\<bar>cosA\<bar> \<le> 1" "\<bar>sinA\<bar> \<le> 1"
    and "transformCorner_b64 cosA sinA 0 0 0 (x, y, z) = (x', y', z')"
  shows "\<bar>x' - (x * cosA - z * sinA)\<bar> \<le> 4 / 2 ^ 50"
    and "y' = b64 y"
    and "\<bar>z' - (x * sinA + z * cosA)\<bar> \<le> 4 / 2 ^ 50"
proof -
  have b: "\<bar>x * cosA\<bar> \<le> 3 * 1" "\<bar>z * sinA\<bar> \<le> 3 * 1" "\<bar>x * sinA\<bar> \<le> 3 * 1" "\<bar>z * cosA\<bar> \<le> 3 * 1"
    using assms(1-4) by (intro abs_mult_bound; simp)+
  have x': "x' = b64 (b64 (b64 (x * cosA) - b64 (z * sinA)) + 0)"
    and z': "z' = b64 (b64 (b64 (x * sinA) + b64 (z * cosA)) + 0)"
    and y': "y' = b64 y"
    using assms(5) by (simp_all add: transformCorner_b64_def)
  show "\<bar>x' - (x * cosA - z * sinA)\<bar> \<le> 4 / 2 ^ 50"
    unfolding x' using b by (intro rounded_difference) simp_all
  show "\<bar>z' - (x * sinA + z * cosA)\<bar> \<le> 4 / 2 ^ 50"
    unfolding z' using b by (intro rounded_sum) simp_all
  show "y' = b64 y"
    by (rule y')
qed

lemma round_trip_error:
  assumes c: "\<bar>cosA\<bar> \<le> 1" "\<bar>sinA\<bar> \<le> 1" "\<bar>cosB\<bar> \<le> 1" "\<bar>sinB\<bar> \<le> 1"
    and o: "\<bar>cosA * cosB - sinA * sinB - 1\<bar> \<le> 1 / 2 ^ 50" "\<bar>sinA * cosB + cosA * sinB\<bar> \<le> 1 / 2 ^ 50"
    and p: "\<bar>x\<bar> \<le> 1" "\<bar>z\<bar> \<le> 1" "b64 y = y"
    and r: "transformCorner_b64 cosB sinB 0 0 0 (transformCorner_b64 cosA sinA 0 0 0 (x, y, z)) = (x', y', z')"
  shows "\<bar>x' - x\<bar> \<le> 1 / 2 ^ 46 \<and> y' = y \<and> \<bar>z' - z\<bar> \<le> 1 / 2 ^ 46"
proof -
  define u :: real where "u = 1 / 2 ^ 50"
  have u: "0 < u" "u \<le> 1 / 8"
    by (simp_all add: u_def)
  obtain x1 y1 z1 where s1: "transformCorner_b64 cosA sinA 0 0 0 (x, y, z) = (x1, y1, z1)"
    by (cases "transformCorner_b64 cosA sinA 0 0 0 (x, y, z)") auto
  define X where "X = x * cosA - z * sinA"
  define Z where "Z = x * sinA + z * cosA"
  have e1: "\<bar>x1 - X\<bar> \<le> 4 * u" "y1 = y" "\<bar>z1 - Z\<bar> \<le> 4 * u"
    using transformCorner_b64_error [OF _ _ c(1,2) s1] p by (simp_all add: X_def Z_def u_def)
  have m: "\<bar>x * cosA\<bar> \<le> 1 * 1" "\<bar>z * sinA\<bar> \<le> 1 * 1" "\<bar>x * sinA\<bar> \<le> 1 * 1" "\<bar>z * cosA\<bar> \<le> 1 * 1"
    using p(1,2) c(1,2) by (intro abs_mult_bound; simp)+
  then have XZ: "\<bar>X\<bar> \<le> 2" "\<bar>Z\<bar> \<le> 2"
    by (simp_all add: X_def Z_def abs_le_iff)
  then have b1: "\<bar>x1\<bar> \<le> 3" "\<bar>z1\<bar> \<le> 3"
    using e1 u by (simp_all add: abs_le_iff)
  have s2: "transformCorner_b64 cosB sinB 0 0 0 (x1, y1, z1) = (x', y', z')"
    using r by (simp add: s1)
  have e2: "\<bar>x' - (x1 * cosB - z1 * sinB)\<bar> \<le> 4 * u" "y' = b64 y1"
    "\<bar>z' - (x1 * sinB + z1 * cosB)\<bar> \<le> 4 * u"
    using transformCorner_b64_error [OF b1 c(3,4) s2] by (simp_all add: u_def)
  have pr: "\<bar>(x1 - X) * cosB\<bar> \<le> 4 * u * 1" "\<bar>(z1 - Z) * sinB\<bar> \<le> 4 * u * 1"
    "\<bar>(x1 - X) * sinB\<bar> \<le> 4 * u * 1" "\<bar>(z1 - Z) * cosB\<bar> \<le> 4 * u * 1"
    using e1 c(3,4) by (intro abs_mult_bound; simp)+
  have dx: "\<bar>(x1 * cosB - z1 * sinB) - (X * cosB - Z * sinB)\<bar> \<le> 8 * u"
  proof -
    have "(x1 * cosB - z1 * sinB) - (X * cosB - Z * sinB) = (x1 - X) * cosB - (z1 - Z) * sinB"
      by (simp add: algebra_simps)
    then show ?thesis
      using pr by (simp add: abs_le_iff)
  qed
  have dz: "\<bar>(x1 * sinB + z1 * cosB) - (X * sinB + Z * cosB)\<bar> \<le> 8 * u"
  proof -
    have "(x1 * sinB + z1 * cosB) - (X * sinB + Z * cosB) = (x1 - X) * sinB + (z1 - Z) * cosB"
      by (simp add: algebra_simps)
    then show ?thesis
      using pr by (simp add: abs_le_iff)
  qed
  have od: "\<bar>x * (cosA * cosB - sinA * sinB - 1)\<bar> \<le> 1 * u" "\<bar>z * (sinA * cosB + cosA * sinB)\<bar> \<le> 1 * u"
    "\<bar>x * (sinA * cosB + cosA * sinB)\<bar> \<le> 1 * u" "\<bar>z * (cosA * cosB - sinA * sinB - 1)\<bar> \<le> 1 * u"
    using p(1,2) o unfolding u_def by (intro abs_mult_bound; simp)+
  have ix: "\<bar>(X * cosB - Z * sinB) - x\<bar> \<le> 2 * u"
  proof -
    have "(X * cosB - Z * sinB) - x =
        x * (cosA * cosB - sinA * sinB - 1) - z * (sinA * cosB + cosA * sinB)"
      by (simp add: X_def Z_def algebra_simps)
    then show ?thesis
      using od by (simp add: abs_le_iff)
  qed
  have iz: "\<bar>(X * sinB + Z * cosB) - z\<bar> \<le> 2 * u"
  proof -
    have "(X * sinB + Z * cosB) - z =
        x * (sinA * cosB + cosA * sinB) + z * (cosA * cosB - sinA * sinB - 1)"
      by (simp add: X_def Z_def algebra_simps)
    then show ?thesis
      using od by (simp add: abs_le_iff)
  qed
  have "\<bar>x' - x\<bar> \<le> 14 * u" "\<bar>z' - z\<bar> \<le> 14 * u"
    using e2 dx dz ix iz by linarith+
  moreover have "14 * u \<le> 1 / 2 ^ 46"
    by (simp add: u_def)
  ultimately have "\<bar>x' - x\<bar> \<le> 1 / 2 ^ 46" "\<bar>z' - z\<bar> \<le> 1 / 2 ^ 46"
    by linarith+
  moreover have "y' = y"
    using e2(2) e1(2) p(3) by simp
  ultimately show ?thesis
    by simp
qed

lemma library_values_compose:
  fixes \<theta> cosA sinA cosB sinB :: real
  assumes "\<bar>cosA - cos \<theta>\<bar> \<le> 1 / 2 ^ 53" "\<bar>sinA - sin \<theta>\<bar> \<le> 1 / 2 ^ 53"
    and "\<bar>cosB - cos (- \<theta>)\<bar> \<le> 1 / 2 ^ 53" "\<bar>sinB - sin (- \<theta>)\<bar> \<le> 1 / 2 ^ 53"
    and "\<bar>cosB\<bar> \<le> 1" "\<bar>sinB\<bar> \<le> 1"
  shows "\<bar>cosA * cosB - sinA * sinB - 1\<bar> \<le> 1 / 2 ^ 50"
    and "\<bar>sinA * cosB + cosA * sinB\<bar> \<le> 1 / 2 ^ 50"
proof -
  define h :: real where "h = 1 / 2 ^ 53"
  define C where "C = cos \<theta>"
  define S where "S = sin \<theta>"
  have CS: "\<bar>C\<bar> \<le> 1" "\<bar>S\<bar> \<le> 1" "S * S + C * C = 1"
    using sin_cos_squared_add [of \<theta>] by (simp_all add: C_def S_def power2_eq_square)
  have a: "\<bar>cosA - C\<bar> \<le> h" "\<bar>sinA - S\<bar> \<le> h" "\<bar>cosB - C\<bar> \<le> h" "\<bar>sinB + S\<bar> \<le> h"
    using assms(1-4) by (simp_all add: C_def S_def h_def)
  have t: "\<bar>(cosA - C) * cosB\<bar> \<le> h * 1" "\<bar>C * (cosB - C)\<bar> \<le> 1 * h"
    "\<bar>(sinA - S) * sinB\<bar> \<le> h * 1" "\<bar>S * (sinB + S)\<bar> \<le> 1 * h"
    "\<bar>(sinA - S) * cosB\<bar> \<le> h * 1" "\<bar>S * (cosB - C)\<bar> \<le> 1 * h"
    "\<bar>(cosA - C) * sinB\<bar> \<le> h * 1" "\<bar>C * (sinB + S)\<bar> \<le> 1 * h"
    using a CS(1,2) assms(5,6) by (intro abs_mult_bound; simp)+
  have "cosA * cosB - sinA * sinB - 1 =
      (cosA - C) * cosB + C * (cosB - C) - (sinA - S) * sinB - S * (sinB + S) + (S * S + C * C - 1)"
    by (simp add: algebra_simps)
  then have "\<bar>cosA * cosB - sinA * sinB - 1\<bar> \<le> 4 * h"
    using t CS(3) by (simp add: abs_le_iff)
  moreover have "sinA * cosB + cosA * sinB =
      (sinA - S) * cosB + S * (cosB - C) + (cosA - C) * sinB + C * (sinB + S)"
    by (simp add: algebra_simps)
  then have "\<bar>sinA * cosB + cosA * sinB\<bar> \<le> 4 * h"
    using t by (simp add: abs_le_iff)
  moreover have "4 * h \<le> 1 / 2 ^ 50"
    by (simp add: h_def)
  ultimately show "\<bar>cosA * cosB - sinA * sinB - 1\<bar> \<le> 1 / 2 ^ 50"
    and "\<bar>sinA * cosB + cosA * sinB\<bar> \<le> 1 / 2 ^ 50"
    by linarith+
qed

text \<open>
  Claim C8, as stated, fails for the binary64 numbers of the sketch: rotating the corner
  \<open>(-0.5, -0.5, -0.5)\<close> by the angle 0.7 and the result by \<open>-0.7\<close> gives
  \<open>(-0.5 - 2 ^ -53, -0.5, -0.5 - 2 ^ -53)\<close>, which is not the corner.
\<close>

theorem C8_counterexample:
  "transformCorner_b64 cos_0_7 (- sin_0_7) 0 0 0
     (transformCorner_b64 cos_0_7 sin_0_7 0 0 0 (- (1 / 2), - (1 / 2), - (1 / 2)))
   = (- (4503599627370497 / 2 ^ 53), - (1 / 2), - (4503599627370497 / 2 ^ 53)) \<and>
   transformCorner_b64 cos_0_7 (- sin_0_7) 0 0 0
     (transformCorner_b64 cos_0_7 sin_0_7 0 0 0 (- (1 / 2), - (1 / 2), - (1 / 2)))
   \<noteq> (- (1 / 2), - (1 / 2), - (1 / 2))"
proof -
  have "transformCorner_b64 cos_0_7 (- sin_0_7) 0 0 0
     (transformCorner_b64 cos_0_7 sin_0_7 0 0 0 (- (1 / 2), - (1 / 2), - (1 / 2)))
   = (- (4503599627370497 / 2 ^ 53), - (1 / 2), - (4503599627370497 / 2 ^ 53))"
    unfolding cos_0_7_def sin_0_7_def rotate_0_7 rotate_back_0_7 by (rule refl)
  then show ?thesis
    by simp
qed

text \<open>
  Claim C8, amended. In binary64 the round trip returns a corner up to a tolerance:
  whenever the values of \<open>cos\<close> and \<open>sin\<close> for the two angles lie between -1 and 1 and
  compose to the identity rotation within \<open>2 ^ -50\<close> (as the values for \<open>\<theta>\<close> and
  \<open>- \<theta>\<close> do when each is within \<open>2 ^ -53\<close> of the exact one), for every point with
  \<open>x\<close> and \<open>z\<close> between -1 and 1 and a binary64 \<open>y\<close>, rotating the point and rotating
  the result back (all offsets 0) yields the same \<open>y\<close> and an \<open>x\<close> and a \<open>z\<close> within
  \<open>2 ^ -46\<close> of the original ones.
\<close>

theorem C8_round_trip_tolerance:
  assumes "\<bar>cosA\<bar> \<le> 1" "\<bar>sinA\<bar> \<le> 1" "\<bar>cosB\<bar> \<le> 1" "\<bar>sinB\<bar> \<le> 1"
    and "\<bar>cosA * cosB - sinA * sinB - 1\<bar> \<le> 1 / 2 ^ 50"
    and "\<bar>sinA * cosB + cosA * sinB\<bar> \<le> 1 / 2 ^ 50"
    and "\<bar>x\<bar> \<le> 1" "\<bar>z\<bar> \<le> 1" "b64 y = y"
  shows "case transformCorner_b64 cosB sinB 0 0 0 (transformCorner_b64 cosA sinA 0 0 0 (x, y, z)) of
           (x', y', z') \<Rightarrow> \<bar>x' - x\<bar> \<le> 1 / 2 ^ 46 \<and> y' = y \<and> \<bar>z' - z\<bar> \<le> 1 / 2 ^ 46"
proof -
  obtain x' y' z' where
    r: "transformCorner_b64 cosB sinB 0 0 0 (transformCorner_b64 cosA sinA 0 0 0 (x, y, z)) = (x', y', z')"
    using prod_cases3 by blast
  have "\<bar>x' - x\<bar> \<le> 1 / 2 ^ 46 \<and> y' = y \<and> \<bar>z' - z\<bar> \<le> 1 / 2 ^ 46"
    using assms r by (rule round_trip_error)
  then show ?thesis
    by (simp add: r)
qed

theorem C8_round_trip_tolerance_witness:
  "\<bar>cos_0_7\<bar> \<le> 1 \<and> \<bar>sin_0_7\<bar> \<le> 1 \<and> \<bar>- sin_0_7\<bar> \<le> 1 \<and>
   \<bar>cos_0_7 * cos_0_7 - sin_0_7 * (- sin_0_7) - 1\<bar> \<le> 1 / 2 ^ 50 \<and>
   \<bar>sin_0_7 * cos_0_7 + cos_0_7 * (- sin_0_7)\<bar> \<le> 1 / 2 ^ 50 \<and>
   b64 (- (1 / 2)) = - (1 / 2) \<and>
   (case transformCorner_b64 cos_0_7 (- sin_0_7) 0 0 0
           (transformCorner_b64 cos_0_7 sin_0_7 0 0 0 (- (1 / 2), - (1 / 2), - (1 / 2))) of
      (x', y', z') \<Rightarrow>
        \<bar>x' - (- (1 / 2))\<bar> \<le> 1 / 2 ^ 46 \<and> y' = - (1 / 2) \<and> \<bar>z' - (- (1 / 2))\<bar> \<le> 1 / 2 ^ 46)"
proof -
  have c: "\<bar>cos_0_7\<bar> \<le> 1" "\<bar>sin_0_7\<bar> \<le> 1" "\<bar>cos_0_7\<bar> \<le> 1" "\<bar>- sin_0_7\<bar> \<le> 1"
    by (simp_all add: cos_0_7_def sin_0_7_def)
  have o: "\<bar>cos_0_7 * cos_0_7 - sin_0_7 * (- sin_0_7) - 1\<bar> \<le> 1 / 2 ^ 50"
      "\<bar>sin_0_7 * cos_0_7 + cos_0_7 * (- sin_0_7)\<bar> \<le> 1 / 2 ^ 50"
    by (simp_all add: cos_0_7_def sin_0_7_def)
  have p: "\<bar>- (1 / 2) :: real\<bar> \<le> 1" "\<bar>- (1 / 2) :: real\<bar> \<le> 1" "b64 (- (1 / 2)) = - (1 / 2)"
    by (simp_all, subst b64_eval [where n = 53]) (simp_all add: round_even_def)
  show ?thesis
    using C8_round_trip_tolerance [OF c o p] c o p by simp
qed

section \<open>The cube of \<open>createCube\<close>\<close>

lemma div_checked_Some: "b \<noteq> 0 \<Longrightarrow> div_checked a b = Some (a / b)"
  by (simp add: div_checked_def)

lemma cubeCorners_unit:
  "cubeCorners 0 0 0 1 0 =
     [(- (1 / 2), - (1 / 2), - (1 / 2)), (1 / 2, - (1 / 2), - (1 / 2)),
      (1 / 2, 1 / 2, - (1 / 2)), (- (1 / 2), 1 / 2, - (1 / 2)),
      (- (1 / 2), - (1 / 2), 1 / 2), (1 / 2, - (1 / 2), 1 / 2),
      (1 / 2, 1 / 2, 1 / 2), (- (1 / 2), 1 / 2, 1 / 2)]"
  by (simp add: cubeCorners_def transformCorner_def Let_def)

lemma faceNormals_unit:
  "map (faceNormal (cubeCorners 0 0 0 1 0)) faces =
     [Some (0, 0, 1), Some (0, 0, 1), Some (0, - 1, 0), Some (0, 1, 0), Some (1, 0, 0), Some (1, 0, 0)]"
  by (simp add: cubeCorners_unit faces_def faceNormal_def computeNormal_def div_checked_def Let_def)

lemma createCube_unit_length: "map_option length (createCube 0 0 0 1 0) = Some 36"
  by (simp add: createCube_def Let_def cubeCorners_unit faces_def faceNormal_def
      computeNormal_def div_checked_def makeFace_def)

lemma createCube_unit_normals:
  "map_option (map snd) (createCube 0 0 0 1 0) =
     Some (concat (map (replicate 6)
       [(0, 0, 1), (0, 0, 1), (0, - 1, 0), (0, 1, 0), (1, 0, 0), (1, 0, 0)]))"
  by (simp add: createCube_def Let_def cubeCorners_unit faces_def faceNormal_def
      computeNormal_def div_checked_def makeFace_def numeral_eq_Suc)

lemma opposite_faces_same_normal:
  "faceNormal (cubeCorners x y z h a) (faces ! 0) = faceNormal (cubeCorners x y z h a) (faces ! 1)"
  "faceNormal (cubeCorners x y z h a) (faces ! 4) = faceNormal (cubeCorners x y z h a) (faces ! 5)"
  by (simp_all add: faces_def faceNormal_def cubeCorners_def transformCorner_def computeNormal_def Let_def)

lemma faceNormals_unit_side:
  "map (\<lambda>face. map_option (\<lambda>n. dot n (cubeCorners 0 0 0 1 0 ! fst face))
          (faceNormal (cubeCorners 0 0 0 1 0) face)) faces =
     [Some (- (1 / 2)), Some (1 / 2), Some (1 / 2), Some (1 / 2), Some (- (1 / 2)), Some (1 / 2)]"
  by (simp add: cubeCorners_unit faces_def faceNormal_def computeNormal_def div_checked_def
      dot_def Let_def)

text \<open>
  Claim C1. For \<open>createCube\<close> with centre \<open>(0, 0)\<close>, \<open>heightFactor\<close> 1 and angle 0 the
  output has 36 vertex records (12 triangles), and the claim says that the six face
  normals are the six distinct unit vectors along the axes, each the outward normal of
  its face. The code gives 36 records but four distinct normals: the faces
  \<open>[0,1,2,3]\<close> (at \<open>z = - 0.5\<close>) and \<open>[4,5,6,7]\<close> (at \<open>z = 0.5\<close>) both get
  \<open>(0, 0, 1)\<close>, and the faces \<open>[0,3,7,4]\<close> (at \<open>x = - 0.5\<close>) and \<open>[1,2,6,5]\<close> (at
  \<open>x = 0.5\<close>) both get \<open>(1, 0, 0)\<close>. The cube is centred at the origin, so a normal
  points outward when its product with a corner of its face is positive; for the first
  and the fifth face it is negative. The theorem evaluates the code at this input.
\<close>

theorem C1_createCube_unit_cube:
  "map_option length (createCube 0 0 0 1 0) = Some 36 \<and>
   map (faceNormal (cubeCorners 0 0 0 1 0)) faces =
     [Some (0, 0, 1), Some (0, 0, 1), Some (0, - 1, 0), Some (0, 1, 0), Some (1, 0, 0), Some (1, 0, 0)] \<and>
   map_option (map snd) (createCube 0 0 0 1 0) =
     Some (concat (map (replicate 6)
       [(0, 0, 1), (0, 0, 1), (0, - 1, 0), (0, 1, 0), (1, 0, 0), (1, 0, 0)])) \<and>
   \<not> distinct (map (faceNormal (cubeCorners 0 0 0 1 0)) faces) \<and>
   map (\<lambda>face. map_option (\<lambda>n. dot n (cubeCorners 0 0 0 1 0 ! fst face))
          (faceNormal (cubeCorners 0 0 0 1 0) face)) faces =
     [Some (- (1 / 2)), Some (1 / 2), Some (1 / 2), Some (1 / 2), Some (- (1 / 2)), Some (1 / 2)]"
  using createCube_unit_length createCube_unit_normals faceNormals_unit_side
  by (simp add: faceNormals_unit)

section \<open>No division by zero\<close>

lemma sum_squares_zero:
  fixes a b c :: real
  assumes "sqrt (a * a + b * b + c * c) \<le> 0"
  shows "a = 0 \<and> b = 0 \<and> c = 0"
proof -
  have "a * a + b * b + c * c \<le> 0"
    using assms by simp
  moreover have "0 \<le> a * a" "0 \<le> b * b" "0 \<le> c * c"
    by simp_all
  ultimately have "a * a = 0" "b * b = 0" "c * c = 0"
    by linarith+
  then show ?thesis by simp
qed

lemma unit_after_division:
  fixes a b c :: real
  assumes "0 < sqrt (a * a + b * b + c * c)"
  shows "length_v (a / sqrt (a * a + b * b + c * c), b / sqrt (a * a + b * b + c * c),
                   c / sqrt (a * a + b * b + c * c)) = 1"
proof -
  define q where "q = a * a + b * b + c * c"
  have q: "0 < q"
    using assms by (simp add: q_def)
  have sq: "sqrt q * sqrt q = q"
    using q by simp
  have "a / sqrt q * (a / sqrt q) + b / sqrt q * (b / sqrt q) + c / sqrt q * (c / sqrt q)
          = (a * a + b * b + c * c) / (sqrt q * sqrt q)"
    by (simp add: add_divide_distrib)
  also have "\<dots> = 1"
    using q by (simp only: sq) (simp add: q_def)
  finally show ?thesis
    by (simp add: length_v_def dot_def q_def)
qed

lemma computeNormal_result:
  "\<exists>n. computeNormal p1 p2 p3 = Some n \<and> (length_v n = 1 \<or> n = (0, 0, 0))"
proof -
  obtain p10 p11 p12 p20 p21 p22 p30 p31 p32
    where p: "p1 = (p10, p11, p12)" "p2 = (p20, p21, p22)" "p3 = (p30, p31, p32)"
    by (cases p1, cases p2, cases p3) auto
  define Nx where "Nx = (p21 - p11) * (p32 - p12) - (p22 - p12) * (p31 - p11)"
  define Ny where "Ny = (p22 - p12) * (p30 - p10) - (p20 - p10) * (p32 - p12)"
  define Nz where "Nz = (p20 - p10) * (p31 - p11) - (p21 - p11) * (p30 - p10)"
  define len where "len = sqrt (Nx * Nx + Ny * Ny + Nz * Nz)"
  have cn: "computeNormal p1 p2 p3 =
      (if len > 0 then
         do {
           Nx' \<leftarrow> div_checked Nx len;
           Ny' \<leftarrow> div_checked Ny len;
           Nz' \<leftarrow> div_checked Nz len;
           Some (Nx', Ny', Nz')
         }
       else Some (Nx, Ny, Nz))"
    by (simp add: p computeNormal_def Let_def Nx_def Ny_def Nz_def len_def)
  show ?thesis
  proof (cases "len > 0")
    case True
    then have "computeNormal p1 p2 p3 = Some (Nx / len, Ny / len, Nz / len)"
      by (simp add: cn div_checked_Some)
    moreover have "length_v (Nx / len, Ny / len, Nz / len) = 1"
      using True unfolding len_def by (rule unit_after_division)
    ultimately show ?thesis by simp
  next
    case False
    then have "Nx = 0 \<and> Ny = 0 \<and> Nz = 0"
      unfolding len_def by (intro sum_squares_zero) simp
    then show ?thesis
      using False by (simp add: cn)
  qed
qed

lemma computeNormal_degenerate: "computeNormal p1 p1 p3 = Some (0, 0, 0)"
  by (cases p1, cases p3) (simp add: computeNormal_def)

lemma cauchy_schwarz3: "(dot a b)\<^sup>2 \<le> dot a a * dot b b"
proof -
  obtain a0 a1 a2 b0 b1 b2 where ab: "a = (a0, a1, a2)" "b = (b0, b1, b2)"
    by (cases a, cases b) auto
  have "dot a a * dot b b - (dot a b)\<^sup>2 =
          (a0 * b1 - a1 * b0)\<^sup>2 + (a1 * b2 - a2 * b1)\<^sup>2 + (a2 * b0 - a0 * b2)\<^sup>2"
    by (simp add: ab dot_def power2_eq_square algebra_simps)
  moreover have "0 \<le> (a0 * b1 - a1 * b0)\<^sup>2 + (a1 * b2 - a2 * b1)\<^sup>2 + (a2 * b0 - a0 * b2)\<^sup>2"
    by simp
  ultimately show ?thesis by linarith
qed

lemma length_v_unit_dot: "length_v a = 1 \<Longrightarrow> dot a a = 1"
  by (simp add: length_v_def)

lemma dot_self_nonneg: "0 \<le> dot a a"
  by (cases a) (simp add: dot_def)

lemma length_v_zero_iff: "length_v a = 0 \<longleftrightarrow> a = (0, 0, 0)"
proof -
  obtain a0 a1 a2 where a: "a = (a0, a1, a2)"
    by (cases a) auto
  show ?thesis
    using sum_squares_zero [of a0 a1 a2] by (auto simp: a length_v_def dot_def)
qed

lemma normalize_v_unit:
  assumes "a \<noteq> (0, 0, 0)"
  shows "\<exists>h. normalize_v a = Some h \<and> length_v h = 1"
proof -
  obtain a0 a1 a2 where a: "a = (a0, a1, a2)"
    by (cases a) auto
  have nz: "length_v a \<noteq> 0"
    using assms by (simp add: length_v_zero_iff)
  then have pos: "0 < sqrt (a0 * a0 + a1 * a1 + a2 * a2)"
    by (simp add: a length_v_def dot_def less_le)
  have "normalize_v a = Some (a0 / length_v a, a1 / length_v a, a2 / length_v a)"
    using nz by (simp add: a normalize_v_def div_checked_Some)
  moreover have "length_v (a0 / length_v a, a1 / length_v a, a2 / length_v a) = 1"
    using unit_after_division [OF pos] by (simp add: a length_v_def dot_def)
  ultimately show ?thesis by simp
qed

lemma NdotH_range:
  assumes "length_v N = 1" "length_v H = 1"
  shows "0 \<le> max (dot N H) 0 * max (dot N H) 0 \<and> max (dot N H) 0 * max (dot N H) 0 \<le> 1"
proof -
  have "(dot N H)\<^sup>2 \<le> 1"
    using cauchy_schwarz3 [of N H] assms by (simp add: length_v_unit_dot)
  then have "max (dot N H) 0 * max (dot N H) 0 \<le> 1"
    by (simp add: max_def power2_eq_square)
  then show ?thesis by simp
qed

lemma ggx_denom_lower:
  fixes n2 alpha2 :: real
  assumes "0 \<le> n2" "n2 \<le> 1" "0 < alpha2" "alpha2 \<le> 1"
  shows "alpha2 \<le> n2 * (alpha2 - 1) + 1"
proof -
  have "n2 * (1 - alpha2) \<le> 1 * (1 - alpha2)"
    using assms by (intro mult_right_mono) simp_all
  then show ?thesis
    by (simp add: algebra_simps)
qed

lemma specularSun_defined:
  assumes N: "length_v N = 1" and VS: "add_v V S \<noteq> (0, 0, 0)"
      and r: "0 < r" "r \<le> 1"
  shows "\<exists>c gd sd. specularSun N V S r m bc = Some (c, gd, sd) \<and> 0 < gd \<and> 1 / 1000 \<le> sd"
proof -
  obtain H where H: "normalize_v (add_v V S) = Some H" "length_v H = 1"
    using normalize_v_unit [OF VS] by blast
  define NdotH where "NdotH = max (dot N H) 0"
  define NdotV where "NdotV = max (dot N V) 0"
  define NdotL where "NdotL = max (dot N S) 0"
  define alpha2 where "alpha2 = r * r * (r * r)"
  define denom where "denom = NdotH * NdotH * (alpha2 - 1) + 1"
  define k where "k = (r + 1) * (r + 1) / 8"
  define denominator where "denominator = 4 * NdotV * NdotL + 1 / 1000"
  have a2: "0 < alpha2" "alpha2 \<le> 1"
  proof -
    have "0 < r * r" "r * r \<le> 1"
      using r by (simp_all add: mult_le_one)
    then show "0 < alpha2" "alpha2 \<le> 1"
      by (simp_all add: alpha2_def mult_le_one)
  qed
  have "alpha2 \<le> denom"
    unfolding denom_def NdotH_def using NdotH_range [OF N H(2)] a2 by (intro ggx_denom_lower) simp_all
  then have denom: "0 < denom"
    using a2 by linarith
  then have gd: "0 < PI * denom * denom"
    by (simp add: PI_def)
  have nn: "0 \<le> NdotV" "0 \<le> NdotL"
    by (simp_all add: NdotV_def NdotL_def)
  have k: "0 < k" "k < 1"
  proof -
    have "1 < r + 1" "r + 1 \<le> 2"
      using r by simp_all
    then have "(r + 1) * (r + 1) \<le> 2 * 2" "0 < (r + 1) * (r + 1)"
      by (intro mult_mono, simp_all)
    then show "0 < k" "k < 1"
      by (simp_all add: k_def)
  qed
  have gv: "0 < NdotV * (1 - k) + k" and gl: "0 < NdotL * (1 - k) + k"
  proof -
    have "0 \<le> NdotV * (1 - k)" "0 \<le> NdotL * (1 - k)"
      using nn k by simp_all
    then show "0 < NdotV * (1 - k) + k" "0 < NdotL * (1 - k) + k"
      using k by linarith+
  qed
  have sd: "1 / 1000 \<le> denominator"
    using nn by (simp add: denominator_def)
  then have sdpos: "0 < denominator"
    by linarith
  have PI: "0 < PI"
    by (simp add: PI_def)
  have "\<exists>c. specularSun N V S r m bc = Some (c, PI * denom * denom, denominator)"
    using PI denom gv gl sdpos
    by (simp add: specularSun_def H Let_def div_checked_def NdotH_def [symmetric]
        NdotV_def [symmetric] NdotL_def [symmetric] alpha2_def [symmetric] denom_def [symmetric]
        k_def [symmetric] denominator_def [symmetric])
  then show ?thesis
    using gd sd by blast
qed

lemma specularSun_zero_roughness:
  "specularSun (0, 1, 0) (0, 1, 0) (0, 1, 0) 0 m bc = None"
  by (simp add: specularSun_def normalize_v_def add_v_def length_v_def dot_def div_checked_def)

text \<open>
  The divisions of the specular term. With the roughness of the sketch the divisors of
  \<open>G_V\<close> and \<open>G_L\<close> are at least \<open>k > 0\<close> and the specular \<open>denominator\<close> is at
  least 0.001, so once the half vector exists the only divisor that can be 0 is
  \<open>PI * denom * denom\<close>.
\<close>

lemma normalize_v_None_iff: "normalize_v a = None \<longleftrightarrow> a = (0, 0, 0)"
proof
  assume "normalize_v a = None"
  then show "a = (0, 0, 0)"
    using normalize_v_unit [of a] by auto
next
  assume "a = (0, 0, 0)"
  then show "normalize_v a = None"
    by (simp add: normalize_v_def length_v_def dot_def div_checked_def)
qed

lemma specularSun_after_half_vector:
  assumes H: "normalize_v (add_v V S) = Some H"
  shows "specularSun N V S uRoughness_sketch m bc =
           (if PI * ggxDenom (\<lambda>x. x) uRoughness_sketch (max (dot N H) 0) *
                 ggxDenom (\<lambda>x. x) uRoughness_sketch (max (dot N H) 0) = 0
            then None
            else Some (case fresnelSchlick (max (dot N H) 0) (mix3 (0.04, 0.04, 0.04) bc m) of
                  (f0, f1, f2) \<Rightarrow>
                    (let D = uRoughness_sketch * uRoughness_sketch * (uRoughness_sketch * uRoughness_sketch) /
                            (PI * ggxDenom (\<lambda>x. x) uRoughness_sketch (max (dot N H) 0) *
                               ggxDenom (\<lambda>x. x) uRoughness_sketch (max (dot N H) 0));
                         k = (uRoughness_sketch + 1) * (uRoughness_sketch + 1) / 8;
                         G = max (dot N V) 0 / (max (dot N V) 0 * (1 - k) + k) *
                             (max (dot N S) 0 / (max (dot N S) 0 * (1 - k) + k));
                         d = 4 * max (dot N V) 0 * max (dot N S) 0 + 0.001
                     in (D * f0 * G / d, D * f1 * G / d, D * f2 * G / d)),
                PI * ggxDenom (\<lambda>x. x) uRoughness_sketch (max (dot N H) 0) *
                  ggxDenom (\<lambda>x. x) uRoughness_sketch (max (dot N H) 0),
                4 * max (dot N V) 0 * max (dot N S) 0 + 0.001))"
proof -
  define NdotV where "NdotV = max (dot N V) 0"
  define NdotL where "NdotL = max (dot N S) 0"
  define k where "k = (uRoughness_sketch + 1) * (uRoughness_sketch + 1) / 8"
  have k: "0 < k" "k < 1"
    by (simp_all add: k_def uRoughness_sketch_def)
  have nn: "0 \<le> NdotV" "0 \<le> NdotL"
    by (simp_all add: NdotV_def NdotL_def)
  have "0 \<le> NdotV * (1 - k)" "0 \<le> NdotL * (1 - k)"
    using nn k by simp_all
  then have g: "NdotV * (1 - k) + k \<noteq> 0" "NdotL * (1 - k) + k \<noteq> 0"
    using k by linarith+
  have "0 \<le> 4 * NdotV * NdotL"
    using nn by simp
  then have d: "4 * NdotV * NdotL + 1 / 1000 \<noteq> 0"
    by linarith
  show ?thesis
    using g d
    by (simp add: specularSun_def H Let_def div_checked_def ggxDenom_def
        NdotV_def [symmetric] NdotL_def [symmetric] k_def [symmetric] split: prod.splits)
qed

lemma specularSun_with_half_vector:
  assumes "normalize_v (add_v V S) = Some H"
  shows "\<exists>c. specularSun N V S uRoughness_sketch m bc =
           (if PI * ggxDenom (\<lambda>x. x) uRoughness_sketch (max (dot N H) 0) *
                 ggxDenom (\<lambda>x. x) uRoughness_sketch (max (dot N H) 0) = 0
            then None
            else Some (c,
                PI * ggxDenom (\<lambda>x. x) uRoughness_sketch (max (dot N H) 0) *
                  ggxDenom (\<lambda>x. x) uRoughness_sketch (max (dot N H) 0),
                4 * max (dot N V) 0 * max (dot N S) 0 + 0.001))"
  by (rule exI, rule specularSun_after_half_vector [OF assms])

lemma specularSun_None_iff:
  "specularSun N V S uRoughness_sketch m bc = None \<longleftrightarrow>
     add_v V S = (0, 0, 0) \<or>
     (\<exists>H. normalize_v (add_v V S) = Some H \<and>
        PI * ggxDenom (\<lambda>x. x) uRoughness_sketch (max (dot N H) 0) *
          ggxDenom (\<lambda>x. x) uRoughness_sketch (max (dot N H) 0) = 0)"
proof (cases "add_v V S = (0, 0, 0)")
  case True
  then have "normalize_v (add_v V S) = None"
    by (simp add: normalize_v_None_iff)
  then have "specularSun N V S uRoughness_sketch m bc = None"
    by (simp add: specularSun_def)
  then show ?thesis
    using True by simp
next
  case False
  then obtain H where H: "normalize_v (add_v V S) = Some H"
    using normalize_v_None_iff [of "add_v V S"] by (cases "normalize_v (add_v V S)") auto
  obtain c where "specularSun N V S uRoughness_sketch m bc =
           (if PI * ggxDenom (\<lambda>x. x) uRoughness_sketch (max (dot N H) 0) *
                 ggxDenom (\<lambda>x. x) uRoughness_sketch (max (dot N H) 0) = 0
            then None
            else Some (c,
                PI * ggxDenom (\<lambda>x. x) uRoughness_sketch (max (dot N H) 0) *
                  ggxDenom (\<lambda>x. x) uRoughness_sketch (max (dot N H) 0),
                4 * max (dot N V) 0 * max (dot N S) 0 + 0.001))"
    using specularSun_with_half_vector [OF H] by blast
  then show ?thesis
    using False H by (auto split: if_splits)
qed

lemma specularSun_Some_denominators:
  assumes "specularSun N V S uRoughness_sketch m bc = Some (c, ggx, denominator)"
  shows "ggx \<noteq> 0 \<and> 0.001 \<le> denominator"
proof -
  obtain H where H: "normalize_v (add_v V S) = Some H"
    using assms by (cases "normalize_v (add_v V S)") (simp_all add: specularSun_def)
  have "0 \<le> 4 * max (dot N V) 0 * max (dot N S) 0"
    by simp
  then have "(0.001::real) \<le> 4 * max (dot N V) 0 * max (dot N S) 0 + 0.001"
    by linarith
  then show ?thesis
    using specularSun_with_half_vector [OF H, of N m bc] assms by (auto split: if_splits)
qed

lemma specularSun_opposite:
  "specularSun N (- s0, - s1, - s2) (s0, s1, s2) uRoughness uMetalness baseColor = None"
  by (simp add: specularSun_def normalize_v_def add_v_def length_v_def dot_def div_checked_def)

lemma ggxDenom_exact_positive:
  assumes N: "length_v N = 1" and H: "normalize_v (add_v V S) = Some H"
  shows "0 < ggxDenom (\<lambda>x. x) uRoughness_sketch (max (dot N H) 0)"
proof -
  have "add_v V S \<noteq> (0, 0, 0)"
    using H normalize_v_None_iff [of "add_v V S"] by auto
  then have "length_v H = 1"
    using normalize_v_unit [of "add_v V S"] H by auto
  then have n: "0 \<le> max (dot N H) 0 * max (dot N H) 0 \<and> max (dot N H) 0 * max (dot N H) 0 \<le> 1"
    using N by (intro NdotH_range)
  define n2 where "n2 = max (dot N H) 0 * max (dot N H) 0"
  have n2: "0 \<le> n2" "n2 \<le> 1"
    using n by (simp_all add: n2_def)
  have "(1 / 10000 :: real) \<le> n2 * (1 / 10000 - 1) + 1"
    using n2 by (intro ggx_denom_lower) simp_all
  then show ?thesis
    by (simp add: ggxDenom_def uRoughness_sketch_def n2_def)
qed

text \<open>
  In binary16 the roughness 0.1 is \<open>819 / 2 ^ 13\<close>, \<open>alpha2\<close> is \<open>419 / 2 ^ 22\<close>, about
  0.0001, and \<open>alpha2 - 1.0\<close> rounds to -1: at \<open>NdotH = 1\<close> the variable \<open>denom\<close> is 0.
\<close>

lemma ggxDenom_steps:
  assumes "rnd (r * r) = alpha" "rnd (alpha * alpha) = alpha2" "rnd (n * n) = n2"
    and "rnd (alpha2 - 1) = am1" "rnd (n2 * am1) = pr" "rnd (pr + 1) = d"
  shows "ggxDenom rnd r n = d"
  using assms by (simp add: ggxDenom_def)

lemma b16_roughness: "b16 uRoughness_sketch = 819 / 2 ^ 13"
  unfolding uRoughness_sketch_def
  by (subst b16_eval [where n = 14]) (simp_all add: round_even_def)

lemma ggxDenom_b16_zero: "ggxDenom b16 (819 / 2 ^ 13) 1 = 0"
proof (rule ggxDenom_steps)
  show "b16 (819 / 2 ^ 13 * (819 / 2 ^ 13)) = 655 / 2 ^ 16"
    by (subst b16_eval [where n = 17]) (simp_all add: round_even_def)
  show "b16 (655 / 2 ^ 16 * (655 / 2 ^ 16)) = 419 / 2 ^ 22"
    by (subst b16_eval [where n = 24]) (simp_all add: round_even_def)
  show "b16 (1 * 1) = 1"
    by (subst b16_eval [where n = 10]) (simp_all add: round_even_def)
  show "b16 (419 / 2 ^ 22 - 1) = - 1"
    by (subst b16_eval [where n = 11]) (simp_all add: round_even_def)
  show "b16 (1 * - 1) = - 1"
    by (subst b16_eval [where n = 10]) (simp_all add: round_even_def)
  show "b16 (- 1 + 1) = 0"
    by (simp add: b16_zero)
qed

text \<open>
  Claim C9, as stated, fails. For the unit vectors \<open>V = (0, 1, 0)\<close> and
  \<open>S = (0, -1, 0)\<close> the sum \<open>V + S\<close> is the zero vector and \<open>normalize(V + S)\<close>
  divides by its length 0: the specular term has no result. And in 16-bit arithmetic
  the divisor \<open>PI * denom * denom\<close> is 0 at \<open>NdotH = 1\<close> with the roughness of the
  sketch.
\<close>

theorem C9_counterexample:
  "length_v (0, 1, 0) = 1 \<and> length_v (0, - 1, 0) = 1 \<and>
   add_v (0, 1, 0) (0, - 1, 0) = (0, 0, 0) \<and>
   normalize_v (add_v (0, 1, 0) (0, - 1, 0)) = None \<and>
   specularSun (0, 1, 0) (0, 1, 0) (0, - 1, 0) uRoughness_sketch (7 / 10) (1, 0, 0) = None \<and>
   PI * ggxDenom b16 (b16 uRoughness_sketch) 1 * ggxDenom b16 (b16 uRoughness_sketch) 1 = 0"
proof -
  have "ggxDenom b16 (b16 uRoughness_sketch) 1 = 0"
    unfolding b16_roughness by (rule ggxDenom_b16_zero)
  then show ?thesis
    using specularSun_opposite [of "(0, 1, 0)" 0 "- 1" 0 uRoughness_sketch "7 / 10" "(1, 0, 0)"]
    by (simp add: add_v_def length_v_def dot_def normalize_v_def div_checked_def)
qed

text \<open>
  Claim C9, amended. \<open>computeNormal\<close> never divides by zero: it always has a result,
  a unit vector or, for a degenerate normal (as when two of the points coincide), the
  zero vector. In the shader, with the roughness the sketch sets, the specular term
  divides by zero exactly when the half vector does not exist (\<open>V + S\<close> is the zero
  vector) or the divisor \<open>PI * denom * denom\<close> is 0; the divisors of \<open>G_V\<close> and
  \<open>G_L\<close> are never 0 and the specular \<open>denominator\<close> is at least 0.001. In exact
  arithmetic \<open>denom\<close> is positive for every unit normal; in binary16 it is 0 at
  \<open>NdotH = 1\<close>.
\<close>

theorem C9_divisions:
  "(\<exists>n. computeNormal p1 p2 p3 = Some n \<and> (length_v n = 1 \<or> n = (0, 0, 0))) \<and>
   computeNormal p1 p1 p3 = Some (0, 0, 0) \<and>
   (specularSun N V S uRoughness_sketch uMetalness baseColor = None \<longleftrightarrow>
      add_v V S = (0, 0, 0) \<or>
      (\<exists>H. normalize_v (add_v V S) = Some H \<and>
         PI * ggxDenom (\<lambda>x. x) uRoughness_sketch (max (dot N H) 0) *
           ggxDenom (\<lambda>x. x) uRoughness_sketch (max (dot N H) 0) = 0)) \<and>
   (\<forall>c ggx denominator.
      specularSun N V S uRoughness_sketch uMetalness baseColor = Some (c, ggx, denominator) \<longrightarrow>
        0.001 \<le> denominator) \<and>
   (\<forall>H. length_v N = 1 \<and> normalize_v (add_v V S) = Some H \<longrightarrow>
      0 < ggxDenom (\<lambda>x. x) uRoughness_sketch (max (dot N H) 0)) \<and>
   ggxDenom b16 (b16 uRoughness_sketch) 1 = 0"
proof -
  have "ggxDenom b16 (b16 uRoughness_sketch) 1 = 0"
    unfolding b16_roughness by (rule ggxDenom_b16_zero)
  then show ?thesis
    using computeNormal_result [of p1 p2 p3] computeNormal_degenerate [of p1 p3]
      specularSun_None_iff [of N V S uMetalness baseColor]
      specularSun_Some_denominators [of N V S uMetalness baseColor]
      ggxDenom_exact_positive [of N V S]
    by blast
qed

theorem C9_divisions_witness:
  "length_v (0, 1, 0) = 1 \<and>
   normalize_v (add_v (0, 1, 0) (0, 1, 0)) = Some (0, 1, 0) \<and>
   0 < ggxDenom (\<lambda>x. x) uRoughness_sketch (max (dot (0, 1, 0) (0, 1, 0)) 0) \<and>
   (\<exists>c ggx denominator.
      specularSun (0, 1, 0) (0, 1, 0) (0, 1, 0) uRoughness_sketch (7 / 10) (1, 0, 0)
        = Some (c, ggx, denominator) \<and> 0.001 \<le> denominator) \<and>
   computeNormal (0, 0, 0) (1, 0, 0) (0, 1, 0) = Some (0, 0, 1) \<and>
   computeNormal (0, 0, 0) (0, 0, 0) (0, 1, 0) = Some (0, 0, 0)"
proof -
  have n: "length_v (0, 1, 0) = 1" "add_v (0, 1, 0) (0, 1, 0) \<noteq> (0, 0, 0)"
    by (simp_all add: length_v_def dot_def add_v_def)
  have H: "normalize_v (add_v (0, 1, 0) (0, 1, 0)) = Some (0, 1, 0)"
    by (simp add: normalize_v_def add_v_def length_v_def dot_def div_checked_def)
  have r: "0 < uRoughness_sketch" "uRoughness_sketch \<le> 1"
    by (simp_all add: uRoughness_sketch_def)
  obtain c ggx d where s: "specularSun (0, 1, 0) (0, 1, 0) (0, 1, 0) uRoughness_sketch (7 / 10) (1, 0, 0)
      = Some (c, ggx, d)"
    using specularSun_defined [OF n r] by blast
  note t = C9_divisions [of "(0, 0, 0)" "(0, 0, 0)" "(0, 1, 0)" "(0, 1, 0)" "(0, 1, 0)" "(0, 1, 0)"
        "7 / 10" "(1, 0, 0)"]
  have "0.001 \<le> d"
    using t s by blast
  moreover have "0 < ggxDenom (\<lambda>x. x) uRoughness_sketch (max (dot (0, 1, 0) (0, 1, 0)) 0)"
    using t n(1) H by blast
  moreover have "computeNormal (0, 0, 0) (1, 0, 0) (0, 1, 0) = Some (0, 0, 1)"
    by (simp add: computeNormal_def div_checked_def)
  moreover have "computeNormal (0, 0, 0) (0, 0, 0) (0, 1, 0) = Some (0, 0, 0)"
    by (simp add: computeNormal_def div_checked_def)
  ultimately show ?thesis
    using s n(1) H by blast
qed

section \<open>The environment map coordinate\<close>

lemma atan_range:
  assumes "- pi \<le> undef" "undef \<le> pi"
  shows "- pi \<le> atan undef y x \<and> atan undef y x \<le> pi"
proof -
  have b: "- (pi / 2) < arctan (y / x)" "arctan (y / x) < pi / 2"
    by (rule arctan_lbound, rule arctan_ubound)
  consider (pos) "0 < x" | (neg_up) "x < 0" "0 \<le> y" | (neg_down) "x < 0" "y < 0"
    | (zero) "x = 0"
    by linarith
  then show ?thesis
  proof cases
    case pos
    then show ?thesis
      using b pi_gt_zero by (simp add: atan_def)
  next
    case neg_up
    then have "y / x \<le> 0"
      by (simp add: divide_nonneg_neg)
    then have "arctan (y / x) \<le> 0"
      using arctan_monotone' [of "y / x" 0] by simp
    then show ?thesis
      using neg_up b by (simp add: atan_def)
  next
    case neg_down
    then have "0 < y / x"
      by (simp add: divide_neg_neg)
    then have "0 < arctan (y / x)"
      using arctan_monotone [of 0 "y / x"] by simp
    then show ?thesis
      using neg_down b by (simp add: atan_def)
  next
    case zero
    then show ?thesis
      using assms pi_gt_zero by (simp add: atan_def)
  qed
qed

lemma clamp_range: "lo \<le> hi \<Longrightarrow> lo \<le> clamp x lo hi \<and> clamp x lo hi \<le> hi"
  by (simp add: clamp_def)

text \<open>
  Claim C10. For every direction vector, \<open>directionToUV\<close> returns coordinates in the
  unit square: \<open>u\<close> is between 0 and 1, since \<open>atan(x, z)\<close> is between \<open>- PI\<close> and
  \<open>PI\<close>, and \<open>v\<close> is between 0 and 1, since \<open>dir.y\<close> is clamped before \<open>acos\<close>. The
  value of \<open>atan(0, 0)\<close>, which the shading language leaves open, is taken in the
  range of \<open>atan\<close>.
\<close>

theorem C10_directionToUV_unit_square:
  assumes "- pi \<le> undef" "undef \<le> pi"
  shows "0 \<le> fst (directionToUV undef dir) \<and> fst (directionToUV undef dir) \<le> 1 \<and>
         0 \<le> snd (directionToUV undef dir) \<and> snd (directionToUV undef dir) \<le> 1"
proof -
  obtain dx dy dz where dir: "dir = (dx, dy, dz)"
    by (cases dir) auto
  have c: "- 1 \<le> clamp dy (- 1) 1" "clamp dy (- 1) 1 \<le> 1"
    using clamp_range [of "- 1" 1 dy] by simp_all
  have th: "0 \<le> arccos (clamp dy (- 1) 1)" "arccos (clamp dy (- 1) 1) \<le> pi"
    using c by (simp_all add: arccos_lbound arccos_ubound)
  have ph: "0 \<le> atan undef dx dz + pi" "atan undef dx dz + pi \<le> 2 * pi"
    using atan_range [OF assms, of dx dz] by simp_all
  have u: "0 \<le> (atan undef dx dz + pi) / (2 * pi)" "(atan undef dx dz + pi) / (2 * pi) \<le> 1"
    using ph pi_gt_zero by simp_all
  have v: "0 \<le> arccos (clamp dy (- 1) 1) / pi" "arccos (clamp dy (- 1) 1) / pi \<le> 1"
    using th pi_gt_zero by simp_all
  show ?thesis
    using u v by (simp add: dir directionToUV_def PI_def Let_def)
qed

theorem C10_directionToUV_unit_square_witness:
  "- pi \<le> (0::real) \<and> (0::real) \<le> pi \<and>
   directionToUV 0 (0, 1, 0) = (1 / 2, 0) \<and>
   directionToUV 0 (0, - 1, 0) = (1 / 2, 1) \<and>
   directionToUV 0 (0, 0, - 1) = (1, 1 / 2) \<and>
   0 \<le> fst (directionToUV 0 (0, 1, 0)) \<and> fst (directionToUV 0 (0, 1, 0)) \<le> 1 \<and>
   0 \<le> snd (directionToUV 0 (0, 1, 0)) \<and> snd (directionToUV 0 (0, 1, 0)) \<le> 1"
proof -
  have h: "- pi \<le> (0::real)" "(0::real) \<le> pi"
    using pi_ge_zero by simp_all
  have e: "directionToUV 0 (0, 1, 0) = (1 / 2, 0)" "directionToUV 0 (0, - 1, 0) = (1 / 2, 1)"
    "directionToUV 0 (0, 0, - 1) = (1, 1 / 2)"
    by (simp_all add: directionToUV_def atan_def clamp_def PI_def Let_def)
  show ?thesis
    using C10_directionToUV_unit_square [OF h, of "(0, 1, 0)"] h e by simp
qed

section \<open>The palette blend\<close>

lemma upt_9: "[0..<9] = [0, 1, 2, 3, 4, 5, 6, 7, 8]"
  by (simp add: upt_rec)

lemma smoothstep_below: "x \<le> edge0 \<Longrightarrow> edge0 < edge1 \<Longrightarrow> smoothstep edge0 edge1 x = 0"
  by (simp add: smoothstep_def clamp_def Let_def max_def min_def divide_nonpos_pos)

lemma smoothstep_above:
  assumes "edge1 \<le> x" "edge0 < edge1"
  shows "smoothstep edge0 edge1 x = 1"
proof -
  have "1 \<le> (x - edge0) / (edge1 - edge0)"
    using assms by (simp add: pos_le_divide_eq)
  then have "clamp ((x - edge0) / (edge1 - edge0)) 0 1 = 1"
    by (simp add: clamp_def)
  then show ?thesis
    by (simp add: smoothstep_def)
qed

lemma mix3_0: "mix3 a b 0 = a"
  by (cases a, cases b) (simp add: mix3_def mix_def)

lemma mix3_1: "mix3 a b 1 = b"
  by (cases a, cases b) (simp add: mix3_def mix_def)

lemma paletteBlend_zero: "paletteBlend u oob 0 = colorAt u oob 0"
  by (simp add: paletteBlend_def Let_def upt_9 smoothstep_below mix3_0)

lemma paletteBlend_tail:
  assumes "4 / 5 \<le> x" "x \<le> 1"
  shows "paletteBlend u oob x =
           mix3 (mix3 (colorAt u oob 4) (colorAt u oob 5) (smoothstep (4 / 5) 1 x))
             (colorAt u oob 0) (smoothstep (4 / 5) 1 x)"
  using assms
  by (simp add: paletteBlend_def Let_def upt_9 smoothstep_below smoothstep_above mix3_0 mix3_1)

lemma smoothstep_tail:
  assumes "4 / 5 \<le> x" "x \<le> 1"
  shows "0 \<le> smoothstep (4 / 5) 1 x \<and> smoothstep (4 / 5) 1 x \<le> 1 \<and>
         1 - smoothstep (4 / 5) 1 x \<le> 75 * (1 - x)\<^sup>2"
proof -
  define t where "t = 5 * x - 4"
  have t: "0 \<le> t" "t \<le> 1"
    using assms by (simp_all add: t_def)
  have "(x - 4 / 5) / (1 - 4 / 5) = t"
    by (simp add: t_def)
  then have s: "smoothstep (4 / 5) 1 x = t * t * (3 - 2 * t)"
    using t by (simp add: smoothstep_def clamp_def Let_def)
  have one: "1 - t * t * (3 - 2 * t) = (1 - t)\<^sup>2 * (1 + 2 * t)"
    by (simp add: power2_eq_square algebra_simps)
  have "(1 - t)\<^sup>2 * (1 + 2 * t) \<le> (1 - t)\<^sup>2 * 3"
    using t by (intro mult_left_mono) simp_all
  moreover have "(1 - t)\<^sup>2 * 3 = 75 * (1 - x)\<^sup>2"
    by (simp add: t_def power2_eq_square algebra_simps)
  moreover have "0 \<le> (1 - t)\<^sup>2 * (1 + 2 * t)"
    using t by simp
  moreover have "0 \<le> t * t * (3 - 2 * t)"
    using t by simp
  ultimately show ?thesis
    unfolding s using one by linarith
qed

lemma mix_unit:
  assumes "0 \<le> a" "a \<le> 1" "0 \<le> b" "b \<le> 1" "0 \<le> s" "s \<le> 1"
  shows "0 \<le> mix a b s \<and> mix a b s \<le> 1"
proof -
  have lo: "0 \<le> a * (1 - s)" "0 \<le> b * s"
    using assms by simp_all
  have "a * (1 - s) \<le> 1 * (1 - s)" "b * s \<le> 1 * s"
    using assms by (intro mult_right_mono; simp)+
  then have hi: "a * (1 - s) \<le> 1 - s" "b * s \<le> s"
    by simp_all
  have "0 \<le> a * (1 - s) + b * s"
    using lo by linarith
  moreover have "a * (1 - s) + b * s \<le> 1"
    using hi by linarith
  ultimately show ?thesis
    by (simp add: mix_def)
qed

lemma wrap_channel:
  assumes "0 \<le> a4" "a4 \<le> 1" "0 \<le> a5" "a5 \<le> 1" "0 \<le> a0" "a0 \<le> 1" "0 \<le> s" "s \<le> 1"
  shows "\<bar>mix (mix a4 a5 s) a0 s - a0\<bar> \<le> 1 - s"
proof -
  have m: "0 \<le> mix a4 a5 s" "mix a4 a5 s \<le> 1"
    using mix_unit [of a4 a5 s] assms by simp_all
  have "mix (mix a4 a5 s) a0 s - a0 = (1 - s) * (mix a4 a5 s - a0)"
    by (simp add: mix_def [of "mix a4 a5 s"] algebra_simps)
  moreover have "\<bar>(1 - s) * (mix a4 a5 s - a0)\<bar> = (1 - s) * \<bar>mix a4 a5 s - a0\<bar>"
    using assms by (simp add: abs_mult)
  moreover have "(1 - s) * \<bar>mix a4 a5 s - a0\<bar> \<le> (1 - s) * 1"
    using m assms by (intro mult_left_mono) simp_all
  ultimately show ?thesis by simp
qed

lemma wrap_dist:
  assumes "in_unit c4" "in_unit c5" "in_unit c0" "0 \<le> s" "s \<le> 1"
  shows "channel_dist (mix3 (mix3 c4 c5 s) c0 s) c0 \<le> 1 - s"
proof -
  obtain r4 g4 b4 r5 g5 b5 r0 g0 b0
    where c: "c4 = (r4, g4, b4)" "c5 = (r5, g5, b5)" "c0 = (r0, g0, b0)"
    by (cases c4, cases c5, cases c0) auto
  have "\<bar>mix (mix r4 r5 s) r0 s - r0\<bar> \<le> 1 - s"
       "\<bar>mix (mix g4 g5 s) g0 s - g0\<bar> \<le> 1 - s"
       "\<bar>mix (mix b4 b5 s) b0 s - b0\<bar> \<le> 1 - s"
    using assms by (simp_all add: c in_unit_def wrap_channel)
  then show ?thesis
    by (simp add: c channel_dist_def mix3_def)
qed

lemma paletteBlend_near_one:
  assumes len: "length u = 9" and unit: "list_all in_unit u" and x: "4 / 5 \<le> x" "x \<le> 1"
  shows "channel_dist (paletteBlend u oob x) (u ! 0) \<le> 75 * (1 - x)\<^sup>2"
proof -
  have c: "colorAt u oob 0 = u ! 0" "colorAt u oob 4 = u ! 4" "colorAt u oob 5 = u ! 5"
    using len by (simp_all add: colorAt_def)
  have "in_unit (u ! 0)" "in_unit (u ! 4)" "in_unit (u ! 5)"
    using unit len by (simp_all add: list_all_length)
  then have "channel_dist (paletteBlend u oob x) (u ! 0) \<le> 1 - smoothstep (4 / 5) 1 x"
    using smoothstep_tail [OF x] by (simp add: paletteBlend_tail [OF x] c wrap_dist)
  then show ?thesis
    using smoothstep_tail [OF x] by linarith
qed

text \<open>
  Claim C7. In the palette blend, at \<open>panning_vUv.x = 0\<close> every smoothstep transition
  of the loop and the wrap-around transition evaluate to 0, so the blended colour is
  \<open>u_color[0]\<close> exactly. As \<open>panning_vUv.x\<close> approaches 1 the wrap-around mix dominates
  and the blended colour approaches \<open>u_color[0]\<close>: for colours with channels between 0
  and 1 and \<open>x\<close> between 0.8 and 1 every channel is within \<open>75 * (1 - x)\<^sup>2\<close> of
  \<open>u_color[0]\<close>, which at 0.999 is 0.000075.
\<close>

theorem C7_palette_wraparound:
  assumes "length u_color = 9"
  shows "(\<forall>i<9. smoothstep (1 / 5 * real i) (1 / 5 * real (i + 1)) 0 = 0) \<and>
         smoothstep (1 / 5 * 4) (1 / 5 * 5) 0 = 0 \<and>
         paletteBlend u_color outOfRange 0 = u_color ! 0 \<and>
         (list_all in_unit u_color \<longrightarrow>
            (\<forall>x. 4 / 5 \<le> x \<and> x \<le> 1 \<longrightarrow>
               channel_dist (paletteBlend u_color outOfRange x) (u_color ! 0) \<le> 75 * (1 - x)\<^sup>2))"
proof -
  have "\<forall>i<9. smoothstep (1 / 5 * real i) (1 / 5 * real (i + 1)) 0 = (0::real)"
    by (simp add: smoothstep_below)
  moreover have "smoothstep (1 / 5 * 4) (1 / 5 * 5) 0 = (0::real)"
    by (simp add: smoothstep_below)
  moreover have "paletteBlend u_color outOfRange 0 = u_color ! 0"
    using assms by (simp add: paletteBlend_zero colorAt_def)
  moreover have "list_all in_unit u_color \<longrightarrow>
            (\<forall>x. 4 / 5 \<le> x \<and> x \<le> 1 \<longrightarrow>
               channel_dist (paletteBlend u_color outOfRange x) (u_color ! 0) \<le> 75 * (1 - x)\<^sup>2)"
    using paletteBlend_near_one [OF assms] by blast
  ultimately show ?thesis by blast
qed

theorem C7_palette_wraparound_witness:
  "length u_color_sketch = 9 \<and> list_all in_unit u_color_sketch \<and>
   (4 / 5 :: real) \<le> 999 / 1000 \<and> (999 / 1000 :: real) \<le> 1 \<and>
   smoothstep (1 / 5 * real (3::nat)) (1 / 5 * real ((3::nat) + 1)) 0 = 0 \<and>
   paletteBlend u_color_sketch (0, 0, 0) 0 = (1, 0, 0) \<and>
   channel_dist (paletteBlend u_color_sketch (0, 0, 0) (999 / 1000)) (1, 0, 0) \<le> 3 / 40000"
proof -
  have h: "length u_color_sketch = 9" "list_all in_unit u_color_sketch"
    by (simp_all add: u_color_sketch_def in_unit_def)
  have z: "u_color_sketch ! 0 = (1, 0, 0)"
    by (simp add: u_color_sketch_def)
  note t = C7_palette_wraparound [OF h(1), of "(0, 0, 0)"]
  from t h(2) have a: "\<forall>x. 4 / 5 \<le> x \<and> x \<le> 1 \<longrightarrow>
      channel_dist (paletteBlend u_color_sketch (0, 0, 0) x) (u_color_sketch ! 0) \<le> 75 * (1 - x)\<^sup>2"
    by blast
  from t have b: "\<forall>i<9. smoothstep (1 / 5 * real i) (1 / 5 * real (i + 1)) 0 = 0"
    by blast
  from t have c: "paletteBlend u_color_sketch (0, 0, 0) 0 = u_color_sketch ! 0"
    by blast
  have "channel_dist (paletteBlend u_color_sketch (0, 0, 0) (999 / 1000)) (u_color_sketch ! 0)
          \<le> 75 * (1 - 999 / 1000)\<^sup>2"
    using a [rule_format, of "999 / 1000"] by simp
  moreover have "75 * (1 - 999 / 1000 :: real)\<^sup>2 = 3 / 40000"
    by (simp add: power2_eq_square)
  ultimately have d: "channel_dist (paletteBlend u_color_sketch (0, 0, 0) (999 / 1000)) (1, 0, 0)
          \<le> 3 / 40000"
    by (simp only: z)
  have e: "smoothstep (1 / 5 * real (3::nat)) (1 / 5 * real ((3::nat) + 1)) 0 = 0"
    using b [rule_format, of 3] by simp
  show ?thesis
    using h c d e by (simp add: z)
qed

end
